theory Spec2Isabelle
  imports Complex_Main
begin

section \<open>The A3C agent of \<^verbatim>\<open>chainerrl/agents/a3c.py\<close>\<close>

text \<open>
  The embedding follows class \<^verbatim>\<open>A3C\<close> method by method. Python floats are read as
  real numbers (rounding is outside the model), Python ints as \<open>int\<close>, the five
  \<^verbatim>\<open>past_*\<close> dictionaries as maps from step indices, and an exception as a left
  value that carries the agent as the exception leaves it, since the object stays
  mutated after a raise.
\<close>

subsection \<open>Errors, distributions and the external model\<close>

datatype error = AssertionError | KeyError int

text \<open>
  An action distribution as returned by \<^verbatim>\<open>pi_and_v\<close>. Sampling is random in the
  source; here the draw is an explicit argument.
\<close>

record 'a distribution =
  sample :: "nat \<Rightarrow> 'a"
  most_probable :: 'a
  log_prob :: "'a \<Rightarrow> real"
  entropy :: real

text \<open>
  What one pass of the loop of \<^verbatim>\<open>update\<close> reads and computes: the index \<open>i\<close>, the
  reward and value read, the value of \<^verbatim>\<open>self.average_reward\<close> when line 152 is
  reached, \<open>R\<close> after line 152 and the advantage of line 157.
\<close>

record step_log =
  idx :: int
  rew :: real
  val :: real
  baseline :: real
  ret :: real
  adv :: real

text \<open>
  The values an update hands to the backward pass: the bootstrap value, the passes of
  the loop in the order they ran, and the two losses after lines 173 to 188.
\<close>

record report =
  bootstrap :: real
  steps :: "step_log list"
  pi_loss :: real
  v_loss :: real

text \<open>
  The model and the optimizer are external. \<open>pi_and_v\<close> evaluates the thread-specific
  model and returns it as the evaluation leaves it (a recurrent model changes its
  state); \<open>backward_and_update\<close> stands for lines 193 to 212 (the backward pass,
  the copy of the gradients, the optimizer step, \<^verbatim>\<open>sync_parameters\<close> and
  \<^verbatim>\<open>unchain_backward\<close>); \<open>is_recurrent\<close> is \<^verbatim>\<open>isinstance(self.model, Recurrent)\<close>.
\<close>

record ('o, 'a, 'm) collaborators =
  pi_and_v :: "'m \<Rightarrow> 'o \<Rightarrow> ('a distribution \<times> real) \<times> 'm"
  backward_and_update :: "'m \<Rightarrow> report \<Rightarrow> 'm"
  is_recurrent :: bool
  reset_state :: "'m \<Rightarrow> 'm"

subsection \<open>The agent\<close>

text \<open>The attributes \<^verbatim>\<open>__init__\<close> sets from its arguments and no method assigns again.\<close>

record 'o config =
  t_max :: int
  gamma :: real
  beta :: real
  process_idx :: int
  clip_reward :: bool
  phi :: "'o \<Rightarrow> 'o"
  pi_loss_coef :: real
  v_loss_coef :: real
  keep_loss_scale_same :: bool
  normalize_grad_by_t_max :: bool
  use_average_reward :: bool
  average_reward_tau :: real
  act_deterministically :: bool

text \<open>The attributes the methods assign.\<close>

record ('o, 'm) a3c =
  model :: 'm
  t :: int
  t_start :: int
  past_action_log_prob :: "int \<rightharpoonup> real"
  past_action_entropy :: "int \<rightharpoonup> real"
  past_states :: "int \<rightharpoonup> 'o"
  past_rewards :: "int \<rightharpoonup> real"
  past_values :: "int \<rightharpoonup> real"
  average_reward :: real

definition init :: "'m \<Rightarrow> ('o, 'm) a3c" where
  "init m = \<lparr>model = m, t = 0, t_start = 0,
     past_action_log_prob = Map.empty, past_action_entropy = Map.empty,
     past_states = Map.empty, past_rewards = Map.empty, past_values = Map.empty,
     average_reward = 0\<rparr>"

text \<open>\<^verbatim>\<open>np.clip(a, a_min, a_max)\<close> on a scalar.\<close>

definition np_clip :: "real \<Rightarrow> real \<Rightarrow> real \<Rightarrow> real" where
  "np_clip a a_min a_max = min (max a a_min) a_max"

text \<open>
  Lines 224 to 229 and 258 to 261: the reward, clipped when the flag is set, is
  stored at index \<open>t - 1\<close>.
\<close>

definition store_reward :: "'o config \<Rightarrow> real \<Rightarrow> ('o, 'm) a3c \<Rightarrow> ('o, 'm) a3c" where
  "store_reward cfg reward s =
     (let reward' = (if clip_reward cfg then np_clip reward (- 1) 1 else reward)
      in s\<lparr>past_rewards := (past_rewards s)(t s - 1 \<mapsto> reward')\<rparr>)"

subsection \<open>update\<close>

text \<open>
  One pass of the loop of lines 148 to 171 at index \<open>i\<close>, with the locals \<open>R\<close>,
  \<open>pi_loss\<close> and \<open>v_loss\<close> as arguments. A missing key raises where the source
  reads it; \<^verbatim>\<open>past_states[i]\<close> is read only for the debug line of worker 0.
\<close>

definition update_step ::
  "'o config \<Rightarrow> int \<Rightarrow> ('o, 'm) a3c \<Rightarrow> real \<Rightarrow> real \<Rightarrow> real \<Rightarrow>
   (error \<times> ('o, 'm) a3c) + (('o, 'm) a3c \<times> real \<times> real \<times> real \<times> step_log)" where
  "update_step cfg i s R pl vl =
     (case past_rewards s i of
        None \<Rightarrow> Inl (KeyError i, s)
      | Some r \<Rightarrow>
          let R1 = R * gamma cfg + r;
              R2 = (if use_average_reward cfg then R1 - average_reward s else R1)
          in (case past_values s i of
                None \<Rightarrow> Inl (KeyError i, s)
              | Some v \<Rightarrow>
                  if process_idx cfg = 0 \<and> past_states s i = None then Inl (KeyError i, s)
                  else
                    let advantage = R2 - v;
                        s1 = (if use_average_reward cfg
                              then s\<lparr>average_reward :=
                                       average_reward s + average_reward_tau cfg * advantage\<rparr>
                              else s)
                    in (case past_action_log_prob s1 i of
                          None \<Rightarrow> Inl (KeyError i, s1)
                        | Some lp \<Rightarrow>
                            (case past_action_entropy s1 i of
                               None \<Rightarrow> Inl (KeyError i, s1)
                             | Some en \<Rightarrow>
                                 Inr (s1, R2,
                                      pl - lp * advantage - beta cfg * en,
                                      vl + (v - R2)\<^sup>2 / 2,
                                      \<lparr>idx = i, rew = r, val = v,
                                       baseline = average_reward s,
                                       ret = R2, adv = advantage\<rparr>)))))"

text \<open>
  The loop over the indices, which \<^verbatim>\<open>update\<close> runs on \<open>reversed(range(t_start, t))\<close>.
  It returns the agent, the locals and the passes made, first pass first.
\<close>

fun update_loop ::
  "'o config \<Rightarrow> int list \<Rightarrow> ('o, 'm) a3c \<Rightarrow> real \<Rightarrow> real \<Rightarrow> real \<Rightarrow>
   (error \<times> ('o, 'm) a3c) + (('o, 'm) a3c \<times> real \<times> real \<times> real \<times> step_log list)" where
  "update_loop cfg [] s R pl vl = Inr (s, R, pl, vl, [])"
| "update_loop cfg (i # is) s R pl vl =
     (case update_step cfg i s R pl vl of
        Inl e \<Rightarrow> Inl e
      | Inr (s1, R1, pl1, vl1, entry) \<Rightarrow>
          (case update_loop cfg is s1 R1 pl1 vl1 of
             Inl e \<Rightarrow> Inl e
           | Inr (s2, R2, pl2, vl2, lg) \<Rightarrow> Inr (s2, R2, pl2, vl2, entry # lg)))"

text \<open>Lines 173 to 188: the transforms of the two accumulated losses.\<close>

definition scale_losses :: "'o config \<Rightarrow> ('o, 'm) a3c \<Rightarrow> real \<times> real \<Rightarrow> real \<times> real" where
  "scale_losses cfg s losses =
     (let (pl, vl) = losses;
          pl1 = (if pi_loss_coef cfg \<noteq> 1 then pl * pi_loss_coef cfg else pl);
          vl1 = (if v_loss_coef cfg \<noteq> 1 then vl * v_loss_coef cfg else vl);
          (pl2, vl2) =
            (if keep_loss_scale_same cfg \<and> t s - t_start s < t_max cfg
             then let factor = real_of_int (t_max cfg) / real_of_int (t s - t_start s)
                  in (pl1 * factor, vl1 * factor)
             else (pl1, vl1))
      in if normalize_grad_by_t_max cfg
         then (pl2 / real_of_int (t s - t_start s), vl2 / real_of_int (t s - t_start s))
         else (pl2, vl2))"

text \<open>
  \<^verbatim>\<open>update(statevar)\<close>; \<open>None\<close> is Python's \<^verbatim>\<open>None\<close>. The bootstrap evaluation runs
  under \<^verbatim>\<open>state_kept\<close>, so it leaves the model as it was.
\<close>

definition update ::
  "('o, 'a, 'm) collaborators \<Rightarrow> 'o config \<Rightarrow> 'o option \<Rightarrow> ('o, 'm) a3c \<Rightarrow>
   (error \<times> ('o, 'm) a3c) + (report \<times> ('o, 'm) a3c)" where
  "update M cfg statevar s =
     (if \<not> t_start s < t s then Inl (AssertionError, s)
      else
        let R0 = (case statevar of
                    None \<Rightarrow> 0
                  | Some sv \<Rightarrow> snd (fst (pi_and_v M (model s) sv)))
        in (case update_loop cfg (rev [t_start s..t s - 1]) s R0 0 0 of
              Inl e \<Rightarrow> Inl e
            | Inr (s1, R, pl, vl, lg) \<Rightarrow>
                let (pl', vl') = scale_losses cfg s1 (pl, vl);
                    rep = \<lparr>bootstrap = R0, steps = lg, pi_loss = pl', v_loss = vl'\<rparr>
                in Inr (rep,
                        s1\<lparr>model := backward_and_update M (model s1) rep,
                           past_action_log_prob := Map.empty,
                           past_action_entropy := Map.empty,
                           past_states := Map.empty,
                           past_rewards := Map.empty,
                           past_values := Map.empty,
                           t_start := t s1\<rparr>)))"

subsection \<open>The public operations\<close>

text \<open>
  Lines 234 to 242 of \<^verbatim>\<open>act_and_train\<close>: the model is evaluated on \<open>statevar\<close>, an
  action is sampled with the draw \<open>rnd\<close>, the entry of step \<open>t\<close> is recorded and \<open>t\<close>
  advances.
\<close>

definition record_entry ::
  "('o, 'a, 'm) collaborators \<Rightarrow> 'o \<Rightarrow> nat \<Rightarrow> ('o, 'm) a3c \<Rightarrow> 'a \<times> ('o, 'm) a3c" where
  "record_entry M statevar rnd s =
     (let ((pout, vout), m') = pi_and_v M (model s) statevar;
          action = sample pout rnd
      in (action,
          s\<lparr>model := m',
            past_states := (past_states s)(t s \<mapsto> statevar),
            past_action_log_prob := (past_action_log_prob s)(t s \<mapsto> log_prob pout action),
            past_action_entropy := (past_action_entropy s)(t s \<mapsto> entropy pout),
            past_values := (past_values s)(t s \<mapsto> vout),
            t := t s + 1\<rparr>))"

text \<open>
  \<^verbatim>\<open>act_and_train(state, reward)\<close> with the random draw \<open>rnd\<close>. Beside the action it
  returns the report of the update it made, if it made one.
\<close>

definition act_and_train ::
  "('o, 'a, 'm) collaborators \<Rightarrow> 'o config \<Rightarrow> 'o \<Rightarrow> real \<Rightarrow> nat \<Rightarrow> ('o, 'm) a3c \<Rightarrow>
   (error \<times> ('o, 'm) a3c) + (('a \<times> report option) \<times> ('o, 'm) a3c)" where
  "act_and_train M cfg state reward rnd s =
     (let statevar = phi cfg state;
          s1 = store_reward cfg reward s
      in if t s1 - t_start s1 = t_max cfg
         then (case update M cfg (Some statevar) s1 of
                 Inl e \<Rightarrow> Inl e
               | Inr (rep, s2) \<Rightarrow>
                   (let (action, s3) = record_entry M statevar rnd s2
                    in Inr ((action, Some rep), s3)))
         else (let (action, s3) = record_entry M statevar rnd s1
               in Inr ((action, None), s3)))"

definition act ::
  "('o, 'a, 'm) collaborators \<Rightarrow> 'o config \<Rightarrow> 'o \<Rightarrow> nat \<Rightarrow> ('o, 'm) a3c \<Rightarrow>
   'a \<times> ('o, 'm) a3c" where
  "act M cfg obs rnd s =
     (let ((pout, _), m') = pi_and_v M (model s) (phi cfg obs)
      in (if act_deterministically cfg then most_probable pout else sample pout rnd,
          s\<lparr>model := m'\<rparr>))"

definition stop_episode_and_train ::
  "('o, 'a, 'm) collaborators \<Rightarrow> 'o config \<Rightarrow> 'o \<Rightarrow> real \<Rightarrow> bool \<Rightarrow> ('o, 'm) a3c \<Rightarrow>
   (error \<times> ('o, 'm) a3c) + (report \<times> ('o, 'm) a3c)" where
  "stop_episode_and_train M cfg state reward done s =
     (let s1 = store_reward cfg reward s
      in (case (if done then update M cfg None s1
                else update M cfg (Some (phi cfg state)) s1) of
            Inl e \<Rightarrow> Inl e
          | Inr (rep, s2) \<Rightarrow>
              Inr (rep, if is_recurrent M then s2\<lparr>model := reset_state M (model s2)\<rparr>
                        else s2)))"

definition stop_episode ::
  "('o, 'a, 'm) collaborators \<Rightarrow> ('o, 'm) a3c \<Rightarrow> ('o, 'm) a3c" where
  "stop_episode M s = (if is_recurrent M then s\<lparr>model := reset_state M (model s)\<rparr> else s)"

subsection \<open>Sequences of calls\<close>

text \<open>
  A caller's view of the agent: the calls it makes, and for each call what came back.
  A caller that catches an exception goes on with the agent as the exception left it.
\<close>

datatype 'o call =
  ActAndTrain 'o real nat
| Act 'o nat
| StopEpisodeAndTrain 'o real bool
| StopEpisode

datatype 'a event =
  Raised error
| Acted 'a "report option"
| Stopped "report option"

definition call_op ::
  "('o, 'a, 'm) collaborators \<Rightarrow> 'o config \<Rightarrow> 'o call \<Rightarrow> ('o, 'm) a3c \<Rightarrow>
   'a event \<times> ('o, 'm) a3c" where
  "call_op M cfg c s =
     (case c of
        ActAndTrain state reward rnd \<Rightarrow>
          (case act_and_train M cfg state reward rnd s of
             Inl (e, s') \<Rightarrow> (Raised e, s')
           | Inr ((a, made), s') \<Rightarrow> (Acted a made, s'))
      | Act obs rnd \<Rightarrow> (let (a, s') = act M cfg obs rnd s in (Acted a None, s'))
      | StopEpisodeAndTrain state reward done \<Rightarrow>
          (case stop_episode_and_train M cfg state reward done s of
             Inl (e, s') \<Rightarrow> (Raised e, s')
           | Inr (rep, s') \<Rightarrow> (Stopped (Some rep), s'))
      | StopEpisode \<Rightarrow> (Stopped None, stop_episode M s))"

fun exec ::
  "('o, 'a, 'm) collaborators \<Rightarrow> 'o config \<Rightarrow> 'o call list \<Rightarrow> ('o, 'm) a3c \<Rightarrow>
   'a event list \<times> ('o, 'm) a3c" where
  "exec M cfg [] s = ([], s)"
| "exec M cfg (c # cs) s =
     (let (ev, s1) = call_op M cfg c s;
          (evs, s2) = exec M cfg cs s1
      in (ev # evs, s2))"

subsection \<open>Reference formulas\<close>

text \<open>
  The factor of the advantage in the increments of the baseline: \<open>average_reward_tau\<close>
  in average-reward mode, and no increment otherwise.
\<close>

definition tau_eff :: "'o config \<Rightarrow> real" where
  "tau_eff cfg = (if use_average_reward cfg then average_reward_tau cfg else 0)"

text \<open>
  The closed form of the return at window position \<open>k\<close> as the specification writes it,
  for a window of length \<open>n\<close> with rewards \<open>r 0, \<dots>, r (n - 1)\<close> and bootstrap \<open>R0\<close>.
\<close>

definition spec_return :: "real \<Rightarrow> (nat \<Rightarrow> real) \<Rightarrow> nat \<Rightarrow> real \<Rightarrow> nat \<Rightarrow> real" where
  "spec_return g r n R0 k = (\<Sum>j = k..<n. g ^ (j - k + 1) * r j) + g ^ (n - k) * R0"

text \<open>The same sum with the reward of position \<open>j\<close> discounted \<open>j - k\<close> times.\<close>

definition discounted_return :: "real \<Rightarrow> (nat \<Rightarrow> real) \<Rightarrow> nat \<Rightarrow> real \<Rightarrow> nat \<Rightarrow> real" where
  "discounted_return g r n R0 k = (\<Sum>j = k..<n. g ^ (j - k) * r j) + g ^ (n - k) * R0"

subsection \<open>A concrete agent\<close>

text \<open>
  The scenario of the specification: horizon 3, discount 0.9, a model whose value
  estimate is always 0 and whose policy always picks action 0; the other options are
  the defaults of \<^verbatim>\<open>__init__\<close>.
\<close>

definition const_dist :: "nat distribution" where
  "const_dist = \<lparr>sample = (\<lambda>_. 0), most_probable = 0, log_prob = (\<lambda>_. 0), entropy = 0\<rparr>"

definition const_model :: "(unit, nat, unit) collaborators" where
  "const_model = \<lparr>pi_and_v = (\<lambda>m ob. ((const_dist, 0), m)),
     backward_and_update = (\<lambda>m rep. m), is_recurrent = False, reset_state = (\<lambda>m. m)\<rparr>"

definition scenario_cfg :: "unit config" where
  "scenario_cfg = \<lparr>t_max = 3, gamma = 9 / 10, beta = 1 / 100, process_idx = 0,
     clip_reward = True, phi = (\<lambda>x. x), pi_loss_coef = 1, v_loss_coef = 1 / 2,
     keep_loss_scale_same = False, normalize_grad_by_t_max = False,
     use_average_reward = False, average_reward_tau = 1 / 100,
     act_deterministically = False\<rparr>"

text \<open>
  The full window the scenario reaches before its update, every reward being 1, the
  report of that update and the agent after it.
\<close>

definition full_window :: "(unit, unit) a3c" where
  "full_window = \<lparr>model = (), t = 3, t_start = 0,
     past_action_log_prob = [0 \<mapsto> 0, 1 \<mapsto> 0, 2 \<mapsto> 0],
     past_action_entropy = [0 \<mapsto> 0, 1 \<mapsto> 0, 2 \<mapsto> 0],
     past_states = [0 \<mapsto> (), 1 \<mapsto> (), 2 \<mapsto> ()],
     past_rewards = [0 \<mapsto> 1, 1 \<mapsto> 1, 2 \<mapsto> 1],
     past_values = [0 \<mapsto> 0, 1 \<mapsto> 0, 2 \<mapsto> 0],
     average_reward = 0\<rparr>"

definition unit_rewards :: "nat \<Rightarrow> real" where
  "unit_rewards j = 1"

definition scenario_report :: report where
  "scenario_report = \<lparr>bootstrap = 0,
     steps = [\<lparr>idx = 2, rew = 1, val = 0, baseline = 0, ret = 1, adv = 1\<rparr>,
              \<lparr>idx = 1, rew = 1, val = 0, baseline = 0, ret = 19 / 10, adv = 19 / 10\<rparr>,
              \<lparr>idx = 0, rew = 1, val = 0, baseline = 0, ret = 271 / 100, adv = 271 / 100\<rparr>],
     pi_loss = 0, v_loss = 119541 / 40000\<rparr>"

definition drained :: "(unit, unit) a3c" where
  "drained = \<lparr>model = (), t = 3, t_start = 3,
     past_action_log_prob = Map.empty, past_action_entropy = Map.empty,
     past_states = Map.empty, past_rewards = Map.empty, past_values = Map.empty,
     average_reward = 0\<rparr>"

subsection \<open>The loss transforms in closed form\<close>

text \<open>
  The factor of the third transform for a window of length \<open>n\<close>: horizon over window
  length when "keep loss scale same" is on and the window is shorter than the horizon.
\<close>

definition keep_factor :: "'o config \<Rightarrow> int \<Rightarrow> real" where
  "keep_factor cfg n =
     (if keep_loss_scale_same cfg \<and> n < t_max cfg then real_of_int (t_max cfg) / real_of_int n
      else 1)"

text \<open>The divisor of the fourth transform: the window length when "normalize" is on.\<close>

definition norm_divisor :: "'o config \<Rightarrow> int \<Rightarrow> real" where
  "norm_divisor cfg n = (if normalize_grad_by_t_max cfg then real_of_int n else 1)"

subsection \<open>Further concrete agents\<close>

text \<open>The scenario's options with average-reward mode on and decay rate 1/2.\<close>

definition average_cfg :: "unit config" where
  "average_cfg = \<lparr>t_max = 3, gamma = 9 / 10, beta = 1 / 100, process_idx = 0,
     clip_reward = True, phi = (\<lambda>x. x), pi_loss_coef = 1, v_loss_coef = 1 / 2,
     keep_loss_scale_same = False, normalize_grad_by_t_max = False,
     use_average_reward = True, average_reward_tau = 1 / 2,
     act_deterministically = False\<rparr>"

text \<open>The report and the agent after the update of the full window in that mode.\<close>

definition average_report :: report where
  "average_report = \<lparr>bootstrap = 0,
     steps = [\<lparr>idx = 2, rew = 1, val = 0, baseline = 0, ret = 1, adv = 1\<rparr>,
              \<lparr>idx = 1, rew = 1, val = 0, baseline = 1 / 2, ret = 7 / 5, adv = 7 / 5\<rparr>,
              \<lparr>idx = 0, rew = 1, val = 0, baseline = 6 / 5, ret = 53 / 50, adv = 53 / 50\<rparr>],
     pi_loss = 0, v_loss = 10209 / 10000\<rparr>"

definition average_drained :: "(unit, unit) a3c" where
  "average_drained = \<lparr>model = (), t = 3, t_start = 3,
     past_action_log_prob = Map.empty, past_action_entropy = Map.empty,
     past_states = Map.empty, past_rewards = Map.empty, past_values = Map.empty,
     average_reward = 173 / 100\<rparr>"

text \<open>
  A window of two steps under a horizon of four, with both length options on and
  coefficients 2 and 1/2; the passes, the report and the agent after its update.
\<close>

definition sample_cfg :: "unit config" where
  "sample_cfg = \<lparr>t_max = 4, gamma = 1 / 2, beta = 1 / 10, process_idx = 0,
     clip_reward = True, phi = (\<lambda>x. x), pi_loss_coef = 2, v_loss_coef = 1 / 2,
     keep_loss_scale_same = True, normalize_grad_by_t_max = True,
     use_average_reward = False, average_reward_tau = 1 / 100,
     act_deterministically = False\<rparr>"

definition sample_window :: "(unit, unit) a3c" where
  "sample_window = \<lparr>model = (), t = 5, t_start = 3,
     past_action_log_prob = [3 \<mapsto> - 1, 4 \<mapsto> - 2],
     past_action_entropy = [3 \<mapsto> 1, 4 \<mapsto> 1],
     past_states = [3 \<mapsto> (), 4 \<mapsto> ()],
     past_rewards = [3 \<mapsto> 1, 4 \<mapsto> 0],
     past_values = [3 \<mapsto> 1 / 2, 4 \<mapsto> 1 / 2],
     average_reward = 0\<rparr>"

definition sample_steps :: "step_log list" where
  "sample_steps = [\<lparr>idx = 4, rew = 0, val = 1 / 2, baseline = 0, ret = 0, adv = - (1 / 2)\<rparr>,
                   \<lparr>idx = 3, rew = 1, val = 1 / 2, baseline = 0, ret = 1, adv = 1 / 2\<rparr>]"

definition sample_report :: report where
  "sample_report = \<lparr>bootstrap = 0, steps = sample_steps, pi_loss = - (7 / 5), v_loss = 1 / 8\<rparr>"

definition sample_drained :: "(unit, unit) a3c" where
  "sample_drained = \<lparr>model = (), t = 5, t_start = 5,
     past_action_log_prob = Map.empty, past_action_entropy = Map.empty,
     past_states = Map.empty, past_rewards = Map.empty, past_values = Map.empty,
     average_reward = 0\<rparr>"

text \<open>The report of the update a call made, if it made one and did not raise.\<close>

definition made_report :: "'a event \<Rightarrow> report option" where
  "made_report ev = (case ev of Raised e \<Rightarrow> None | Acted a made \<Rightarrow> made | Stopped made \<Rightarrow> made)"

text \<open>The scenario's options with a horizon of 0.\<close>

definition zero_horizon_cfg :: "unit config" where
  "zero_horizon_cfg = \<lparr>t_max = 0, gamma = 9 / 10, beta = 1 / 100, process_idx = 0,
     clip_reward = True, phi = (\<lambda>x. x), pi_loss_coef = 1, v_loss_coef = 1 / 2,
     keep_loss_scale_same = False, normalize_grad_by_t_max = False,
     use_average_reward = False, average_reward_tau = 1 / 100,
     act_deterministically = False\<rparr>"

text \<open>
  The agent after three calls of \<^verbatim>\<open>act_and_train\<close> with rewards 0, -5 and 0.5 under
  the scenario's options, and the report of the update the fourth call, with reward 5,
  makes.
\<close>

definition clipped_window :: "(unit, unit) a3c" where
  "clipped_window = \<lparr>model = (), t = 3, t_start = 0,
     past_action_log_prob = [0 \<mapsto> 0, 1 \<mapsto> 0, 2 \<mapsto> 0],
     past_action_entropy = [0 \<mapsto> 0, 1 \<mapsto> 0, 2 \<mapsto> 0],
     past_states = [0 \<mapsto> (), 1 \<mapsto> (), 2 \<mapsto> ()],
     past_rewards = [- 1 \<mapsto> 0, 0 \<mapsto> - 1, 1 \<mapsto> 1 / 2],
     past_values = [0 \<mapsto> 0, 1 \<mapsto> 0, 2 \<mapsto> 0],
     average_reward = 0\<rparr>"

definition clipped_report :: report where
  "clipped_report = \<lparr>bootstrap = 0,
     steps = [\<lparr>idx = 2, rew = 1, val = 0, baseline = 0, ret = 1, adv = 1\<rparr>,
              \<lparr>idx = 1, rew = 1 / 2, val = 0, baseline = 0, ret = 7 / 5, adv = 7 / 5\<rparr>,
              \<lparr>idx = 0, rew = - 1, val = 0, baseline = 0, ret = 13 / 50, adv = 13 / 50\<rparr>],
     pi_loss = 0, v_loss = 7569 / 10000\<rparr>"

text \<open>
  The window of a reachable agent: \<open>t_start\<close> is at most \<open>t\<close>, every index of the window
  has its entry in the four maps \<^verbatim>\<open>act_and_train\<close> fills, and every index but the last has
  its reward.
\<close>

definition window_ok :: "('o, 'm) a3c \<Rightarrow> bool" where
  "window_ok s \<longleftrightarrow>
     t_start s \<le> t s \<and>
     (\<forall>i. t_start s \<le> i \<and> i < t s \<longrightarrow>
        i \<in> dom (past_values s) \<and> i \<in> dom (past_action_log_prob s) \<and>
        i \<in> dom (past_action_entropy s) \<and> i \<in> dom (past_states s)) \<and>
     (\<forall>i. t_start s \<le> i \<and> i < t s - 1 \<longrightarrow> i \<in> dom (past_rewards s))"

text \<open>
  Whether a sequence of calls ends with no \<^verbatim>\<open>act_and_train\<close> since the last
  \<^verbatim>\<open>stop_episode_and_train\<close>, or since its start when \<open>b\<close> holds and it has none.
\<close>

fun window_closed :: "bool \<Rightarrow> 'o call list \<Rightarrow> bool" where
  "window_closed b [] = b"
| "window_closed b (ActAndTrain state reward rnd # cs) = window_closed False cs"
| "window_closed b (Act obs rnd # cs) = window_closed b cs"
| "window_closed b (StopEpisodeAndTrain state reward done # cs) = window_closed True cs"
| "window_closed b (StopEpisode # cs) = window_closed b cs"

text \<open>
  The scenario as calls, rewards 1, 1, 1 and a terminal step: the terminal step as
  \<^verbatim>\<open>stop_episode_and_train\<close> with the third reward, and as a fourth \<^verbatim>\<open>act_and_train\<close>
  followed by \<^verbatim>\<open>stop_episode\<close>.
\<close>

definition scenario_calls :: "unit call list" where
  "scenario_calls = [ActAndTrain () 0 0, ActAndTrain () 1 0, ActAndTrain () 1 0,
     StopEpisodeAndTrain () 1 True]"

definition scenario_calls_horizon :: "unit call list" where
  "scenario_calls_horizon = [ActAndTrain () 0 0, ActAndTrain () 1 0, ActAndTrain () 1 0,
     ActAndTrain () 1 0, StopEpisode]"

text \<open>
  Two agents that are equal but for their rewards map, and whose rewards agree at every
  index from \<open>t_start\<close> on.
\<close>

definition agree_in_window :: "('o, 'm) a3c \<Rightarrow> ('o, 'm) a3c \<Rightarrow> bool" where
  "agree_in_window s s' \<longleftrightarrow>
     s' = s\<lparr>past_rewards := past_rewards s'\<rparr> \<and>
     (\<forall>i. t_start s \<le> i \<longrightarrow> past_rewards s' i = past_rewards s i)"

text \<open>
  The agent after the first call of \<^verbatim>\<open>act_and_train\<close> with reward 0, and the agent after
  the call that updates on \<open>clipped_window\<close>.
\<close>

definition first_window :: "(unit, unit) a3c" where
  "first_window = \<lparr>model = (), t = 1, t_start = 0,
     past_action_log_prob = [0 \<mapsto> 0], past_action_entropy = [0 \<mapsto> 0],
     past_states = [0 \<mapsto> ()], past_rewards = [- 1 \<mapsto> 0], past_values = [0 \<mapsto> 0],
     average_reward = 0\<rparr>"

definition next_window :: "(unit, unit) a3c" where
  "next_window = \<lparr>model = (), t = 4, t_start = 3,
     past_action_log_prob = [3 \<mapsto> 0], past_action_entropy = [3 \<mapsto> 0],
     past_states = [3 \<mapsto> ()], past_rewards = Map.empty, past_values = [3 \<mapsto> 0],
     average_reward = 0\<rparr>"

text \<open>
  The agent two steps into a second episode, \<open>v\<close> being the stored reward of the first
  call of that episode, and what the calls up to there returned.
\<close>

definition open_window :: "real \<Rightarrow> (unit, unit) a3c" where
  "open_window v = \<lparr>model = (), t = 2, t_start = 1,
     past_action_log_prob = [1 \<mapsto> 0], past_action_entropy = [1 \<mapsto> 0],
     past_states = [1 \<mapsto> ()], past_rewards = [0 \<mapsto> v], past_values = [1 \<mapsto> 0],
     average_reward = 0\<rparr>"

definition open_events :: "nat event list" where
  "open_events =
     [Acted 0 None,
      Stopped (Some \<lparr>bootstrap = 0,
         steps = [\<lparr>idx = 0, rew = 1, val = 0, baseline = 0, ret = 1, adv = 1\<rparr>],
         pi_loss = 0, v_loss = 1 / 4\<rparr>),
      Acted 0 None]"

text \<open>
  What the calls of two episodes return under the scenario's options: one step and a
  terminal stop, then two steps and a terminal stop.
\<close>

definition episode_events :: "nat event list" where
  "episode_events =
     [Acted 0 None,
      Stopped (Some \<lparr>bootstrap = 0,
         steps = [\<lparr>idx = 0, rew = 1, val = 0, baseline = 0, ret = 1, adv = 1\<rparr>],
         pi_loss = 0, v_loss = 1 / 4\<rparr>),
      Acted 0 None, Acted 0 None,
      Stopped (Some \<lparr>bootstrap = 0,
         steps = [\<lparr>idx = 2, rew = 1, val = 0, baseline = 0, ret = 1, adv = 1\<rparr>,
                  \<lparr>idx = 1, rew = 1, val = 0, baseline = 0, ret = 19 / 10, adv = 19 / 10\<rparr>],
         pi_loss = 0, v_loss = 461 / 400\<rparr>)]"

text \<open>
  The scenario's model with the number of gradient steps made as its state: every
  \<open>backward_and_update\<close> adds one, the value estimate is always 0 and the policy always
  picks action 0.
\<close>

definition counting_model :: "(unit, nat, nat) collaborators" where
  "counting_model = \<lparr>pi_and_v = (\<lambda>m ob. ((const_dist, 0), m)),
     backward_and_update = (\<lambda>m rep. m + 1), is_recurrent = False, reset_state = (\<lambda>m. m)\<rparr>"

text \<open>The model after each call of a sequence.\<close>

fun models_after ::
  "('o, 'a, 'm) collaborators \<Rightarrow> 'o config \<Rightarrow> 'o call list \<Rightarrow> ('o, 'm) a3c \<Rightarrow> 'm list" where
  "models_after M cfg [] s = []"
| "models_after M cfg (c # cs) s =
     model (snd (call_op M cfg c s)) # models_after M cfg cs (snd (call_op M cfg c s))"

text \<open>The scenario's options with a horizon of -1.\<close>

definition negative_horizon_cfg :: "unit config" where
  "negative_horizon_cfg = \<lparr>t_max = - 1, gamma = 9 / 10, beta = 1 / 100, process_idx = 0,
     clip_reward = True, phi = (\<lambda>x. x), pi_loss_coef = 1, v_loss_coef = 1 / 2,
     keep_loss_scale_same = False, normalize_grad_by_t_max = False,
     use_average_reward = False, average_reward_tau = 1 / 100,
     act_deterministically = False\<rparr>"

text \<open>
  The counting agent after three calls of \<^verbatim>\<open>act_and_train\<close> with rewards 0, -5 and 0.5,
  after the fourth call, which updates, and after a first call with reward 0.
\<close>

definition counted_window :: "(unit, nat) a3c" where
  "counted_window = \<lparr>model = 0, t = 3, t_start = 0,
     past_action_log_prob = [0 \<mapsto> 0, 1 \<mapsto> 0, 2 \<mapsto> 0],
     past_action_entropy = [0 \<mapsto> 0, 1 \<mapsto> 0, 2 \<mapsto> 0],
     past_states = [0 \<mapsto> (), 1 \<mapsto> (), 2 \<mapsto> ()],
     past_rewards = [- 1 \<mapsto> 0, 0 \<mapsto> - 1, 1 \<mapsto> 1 / 2],
     past_values = [0 \<mapsto> 0, 1 \<mapsto> 0, 2 \<mapsto> 0],
     average_reward = 0\<rparr>"

definition counted_next :: "(unit, nat) a3c" where
  "counted_next = \<lparr>model = 1, t = 4, t_start = 3,
     past_action_log_prob = [3 \<mapsto> 0], past_action_entropy = [3 \<mapsto> 0],
     past_states = [3 \<mapsto> ()], past_rewards = Map.empty, past_values = [3 \<mapsto> 0],
     average_reward = 0\<rparr>"

definition counted_first :: "(unit, nat) a3c" where
  "counted_first = \<lparr>model = 0, t = 1, t_start = 0,
     past_action_log_prob = [0 \<mapsto> 0], past_action_entropy = [0 \<mapsto> 0],
     past_states = [0 \<mapsto> ()], past_rewards = [- 1 \<mapsto> 0], past_values = [0 \<mapsto> 0],
     average_reward = 0\<rparr>"

section \<open>Properties\<close>

subsection \<open>The loop of update\<close>

lemma update_step_Inr:
  assumes "update_step cfg i s R pl vl = Inr (s1, R1, pl1, vl1, e)"
  shows "past_rewards s i = Some (rew e)" "past_values s i = Some (val e)" "idx e = i"
    "baseline e = average_reward s"
    "ret e = R * gamma cfg + rew e - (if use_average_reward cfg then average_reward s else 0)"
    "adv e = ret e - val e" "R1 = ret e"
    "s1 = s\<lparr>average_reward := (if use_average_reward cfg
             then average_reward s + average_reward_tau cfg * adv e else average_reward s)\<rparr>"
    "\<exists>lp en. past_action_log_prob s i = Some lp \<and> past_action_entropy s i = Some en \<and>
       pl1 = pl - lp * adv e - beta cfg * en \<and> vl1 = vl + (val e - ret e)\<^sup>2 / 2"
  using assms unfolding update_step_def
  by (auto simp: Let_def split: option.splits if_splits)

lemma update_step_Inl:
  assumes "update_step cfg i s R pl vl = Inl (e, s1)"
  shows "e = KeyError i" "s1 = s\<lparr>average_reward := average_reward s1\<rparr>"
  using assms unfolding update_step_def
  by (auto simp: Let_def split: option.splits if_splits)

lemma update_loop_Cons_Inr:
  assumes "update_loop cfg (i # is) s R pl vl = Inr (s', R', pl', vl', lg)"
  obtains s1 R1 pl1 vl1 e lg1 where
    "update_step cfg i s R pl vl = Inr (s1, R1, pl1, vl1, e)"
    "update_loop cfg is s1 R1 pl1 vl1 = Inr (s', R', pl', vl', lg1)"
    "lg = e # lg1"
  using assms by (auto split: sum.splits)

lemma update_loop_frame:
  "update_loop cfg is s R pl vl = Inr (s', R', pl', vl', lg) \<Longrightarrow>
   s' = s\<lparr>average_reward := average_reward s'\<rparr>"
proof (induction "is" arbitrary: s R pl vl lg)
  case Nil
  then show ?case by simp
next
  case (Cons i "is")
  from Cons.prems obtain s1 R1 pl1 vl1 e lg1 where
    st: "update_step cfg i s R pl vl = Inr (s1, R1, pl1, vl1, e)" and
    lp: "update_loop cfg is s1 R1 pl1 vl1 = Inr (s', R', pl', vl', lg1)"
    by (rule update_loop_Cons_Inr)
  from Cons.IH [OF lp] have "s' = s1\<lparr>average_reward := average_reward s'\<rparr>" .
  moreover from update_step_Inr(8) [OF st] have "\<exists>b. s1 = s\<lparr>average_reward := b\<rparr>" by blast
  ultimately show ?case by (metis a3c.surjective a3c.update_convs(9))
qed

lemma update_loop_idx:
  "update_loop cfg is s R pl vl = Inr (s', R', pl', vl', lg) \<Longrightarrow> map idx lg = is"
proof (induction "is" arbitrary: s R pl vl lg)
  case Nil
  then show ?case by simp
next
  case (Cons i "is")
  from Cons.prems obtain s1 R1 pl1 vl1 e lg1 where
    st: "update_step cfg i s R pl vl = Inr (s1, R1, pl1, vl1, e)" and
    lp: "update_loop cfg is s1 R1 pl1 vl1 = Inr (s', R', pl', vl', lg1)" and
    lg: "lg = e # lg1"
    by (rule update_loop_Cons_Inr)
  show ?case using Cons.IH [OF lp] update_step_Inr(3) [OF st] lg by simp
qed


lemma update_loop_length:
  "update_loop cfg is s R pl vl = Inr (s', R', pl', vl', lg) \<Longrightarrow> length lg = length is"
  using update_loop_idx [of cfg "is" s R pl vl s' R' pl' vl' lg] by (metis length_map)

lemma update_loop_reads:
  "update_loop cfg is s R pl vl = Inr (s', R', pl', vl', lg) \<Longrightarrow> k < length is \<Longrightarrow>
   past_rewards s (is ! k) = Some (rew (lg ! k)) \<and> past_values s (is ! k) = Some (val (lg ! k))
   \<and> adv (lg ! k) = ret (lg ! k) - val (lg ! k)"
proof (induction "is" arbitrary: s R pl vl lg k)
  case Nil
  then show ?case by simp
next
  case (Cons i "is")
  from Cons.prems(1) obtain s1 R1 pl1 vl1 e lg1 where
    st: "update_step cfg i s R pl vl = Inr (s1, R1, pl1, vl1, e)" and
    lp: "update_loop cfg is s1 R1 pl1 vl1 = Inr (s', R', pl', vl', lg1)" and
    lg: "lg = e # lg1"
    by (rule update_loop_Cons_Inr)
  show ?case
  proof (cases k)
    case 0
    then show ?thesis using update_step_Inr(1,2,6) [OF st] lg by simp
  next
    case (Suc j)
    with Cons.prems(2) have j: "j < length is" by simp
    have maps: "past_rewards s1 = past_rewards s" "past_values s1 = past_values s"
      using update_step_Inr(8) [OF st] by (metis a3c.select_convs a3c.surjective a3c.update_convs(9))+
    show ?thesis using Cons.IH [OF lp j] maps Suc lg by simp
  qed
qed

lemma update_loop_baseline:
  "update_loop cfg is s R pl vl = Inr (s', R', pl', vl', lg) \<Longrightarrow>
   average_reward s' = average_reward s + tau_eff cfg * (\<Sum>p<length is. adv (lg ! p)) \<and>
   (\<forall>k<length is. baseline (lg ! k) =
       average_reward s + tau_eff cfg * (\<Sum>p<k. adv (lg ! p)))"
proof (induction "is" arbitrary: s R pl vl lg)
  case Nil
  then show ?case by simp
next
  case (Cons i "is")
  from Cons.prems(1) obtain s1 R1 pl1 vl1 e lg1 where
    st: "update_step cfg i s R pl vl = Inr (s1, R1, pl1, vl1, e)" and
    lp: "update_loop cfg is s1 R1 pl1 vl1 = Inr (s', R', pl', vl', lg1)" and
    lg: "lg = e # lg1"
    by (rule update_loop_Cons_Inr)
  have s1: "average_reward s1 = average_reward s + tau_eff cfg * adv e"
    using update_step_Inr(8) [OF st] by (simp add: tau_eff_def)
  note IH = Cons.IH [OF lp]
  have fin: "average_reward s' =
      average_reward s + tau_eff cfg * (\<Sum>p<length (i # is). adv (lg ! p))"
    using IH s1 lg by (simp add: sum.lessThan_Suc_shift algebra_simps del: sum.lessThan_Suc)
  have "baseline (lg ! k) = average_reward s + tau_eff cfg * (\<Sum>p<k. adv (lg ! p))"
    if "k < length (i # is)" for k
  proof (cases k)
    case 0
    then show ?thesis using update_step_Inr(4) [OF st] lg by simp
  next
    case (Suc j)
    with that have "j < length is" by simp
    with IH have "baseline (lg1 ! j) = average_reward s1 + tau_eff cfg * (\<Sum>p<j. adv (lg1 ! p))"
      by blast
    then show ?thesis using s1 lg Suc by (simp add: sum.lessThan_Suc_shift algebra_simps del: sum.lessThan_Suc)
  qed
  with fin show ?case by blast
qed

lemma update_loop_ret:
  "update_loop cfg is s R pl vl = Inr (s', R', pl', vl', lg) \<Longrightarrow> k < length is \<Longrightarrow>
   ret (lg ! k) = (if k = 0 then R else ret (lg ! (k - 1))) * gamma cfg + rew (lg ! k)
      - (if use_average_reward cfg then baseline (lg ! k) else 0)"
proof (induction "is" arbitrary: s R pl vl lg k)
  case Nil
  then show ?case by simp
next
  case (Cons i "is")
  from Cons.prems(1) obtain s1 R1 pl1 vl1 e lg1 where
    st: "update_step cfg i s R pl vl = Inr (s1, R1, pl1, vl1, e)" and
    lp: "update_loop cfg is s1 R1 pl1 vl1 = Inr (s', R', pl', vl', lg1)" and
    lg: "lg = e # lg1"
    by (rule update_loop_Cons_Inr)
  show ?case
  proof (cases k)
    case 0
    then show ?thesis using update_step_Inr(4,5) [OF st] lg by simp
  next
    case (Suc j)
    with Cons.prems(2) have j: "j < length is" by simp
    show ?thesis using Cons.IH [OF lp j] update_step_Inr(7) [OF st] Suc lg
      by (cases j) simp_all
  qed
qed

lemma update_loop_closed_form:
  "update_loop cfg is s R pl vl = Inr (s', R', pl', vl', lg) \<Longrightarrow>
   \<not> use_average_reward cfg \<Longrightarrow> k < length is \<Longrightarrow>
   ret (lg ! k) = (\<Sum>p\<le>k. gamma cfg ^ (k - p) * rew (lg ! p)) + gamma cfg ^ Suc k * R"
proof (induction k)
  case 0
  then show ?case using update_loop_ret [of cfg "is" s R pl vl s' R' pl' vl' lg 0] by simp
next
  case (Suc k)
  then have k: "k < length is" by simp
  have "ret (lg ! Suc k) = ret (lg ! k) * gamma cfg + rew (lg ! Suc k)"
    using update_loop_ret [OF Suc.prems(1) Suc.prems(3)] Suc.prems(2) by simp
  also have "\<dots> = ((\<Sum>p\<le>k. gamma cfg ^ (k - p) * rew (lg ! p)) + gamma cfg ^ Suc k * R) * gamma cfg
       + rew (lg ! Suc k)"
    using Suc.IH [OF Suc.prems(1,2) k] by simp
  also have "\<dots> = (\<Sum>p\<le>k. gamma cfg ^ (Suc k - p) * rew (lg ! p)) + rew (lg ! Suc k)
       + gamma cfg ^ Suc (Suc k) * R"
    by (simp add: algebra_simps sum_distrib_left Suc_diff_le)
  finally show ?case by simp
qed


lemma upto_0_2: "[0..2::int] = [0, 1, 2]"
  by (simp add: upto.simps)


lemma rev_upto_nth: "p < nat (b - a + 1) \<Longrightarrow> rev [a..b] ! p = b - int p"
  by (simp add: rev_nth nth_upto)

lemma update_Inr:
  assumes "update M cfg statevar s = Inr (rep, s')"
  obtains s1 R pl vl where
    "t_start s < t s"
    "bootstrap rep = (case statevar of None \<Rightarrow> 0 | Some sv \<Rightarrow> snd (fst (pi_and_v M (model s) sv)))"
    "update_loop cfg (rev [t_start s..t s - 1]) s (bootstrap rep) 0 0 = Inr (s1, R, pl, vl, steps rep)"
    "(pi_loss rep, v_loss rep) = scale_losses cfg s1 (pl, vl)"
    "s' = s1\<lparr>model := backward_and_update M (model s1) rep,
          past_action_log_prob := Map.empty, past_action_entropy := Map.empty,
          past_states := Map.empty, past_rewards := Map.empty, past_values := Map.empty,
          t_start := t s1\<rparr>"
  using assms unfolding update_def
  by (auto simp: Let_def split: if_splits sum.splits prod.splits)

subsection \<open>The return recurrence\<close>

text \<open>
  Claim C1, as the code has it. When an update succeeds on a window of length \<open>n\<close>
  with average-reward mode off and stored rewards \<open>r 0, \<dots>, r (n - 1)\<close> (\<open>r j\<close> at index
  \<open>t_start + j\<close>), the loop makes \<open>n\<close> passes, the pass for index \<open>t_start + k\<close> is the
  one at position \<open>n - 1 - k\<close>, and the return it computes is
  \<open>(\<Sum>j = k..<n. gamma ^ (j - k) * r j) + gamma ^ (n - k) * R0\<close>: the reward of the step
  itself is not discounted.
\<close>

theorem return_closed_form:
  assumes upd: "update M cfg statevar s = Inr (rep, s')"
    and avg: "\<not> use_average_reward cfg"
    and n: "n = nat (t s - t_start s)"
    and r: "\<forall>j<n. past_rewards s (t_start s + int j) = Some (r j)"
    and k: "k < n"
  shows "length (steps rep) = n \<and> idx (steps rep ! (n - 1 - k)) = t_start s + int k \<and>
    ret (steps rep ! (n - 1 - k)) = discounted_return (gamma cfg) r n (bootstrap rep) k"
proof -
  from upd obtain s1 R pl vl where
    lt: "t_start s < t s" and
    lp: "update_loop cfg (rev [t_start s..t s - 1]) s (bootstrap rep) 0 0
         = Inr (s1, R, pl, vl, steps rep)"
    by (rule update_Inr)
  let ?is = "rev [t_start s..t s - 1]"
  let ?lg = "steps rep"
  have len_is: "length ?is = n" using n by simp
  have len: "length ?lg = n" using update_loop_length [OF lp] len_is by simp
  have nth_is: "?is ! p = t s - 1 - int p" if "p < n" for p
    using that n by (simp add: rev_upto_nth)
  have idx_lg: "idx (?lg ! p) = t s - 1 - int p" if "p < n" for p
  proof -
    have "idx (?lg ! p) = map idx ?lg ! p" using that len by simp
    also have "\<dots> = ?is ! p" using update_loop_idx [OF lp] by simp
    finally show ?thesis using nth_is [OF that] by simp
  qed
  have rew_lg: "rew (?lg ! p) = r (n - 1 - p)" if "p < n" for p
  proof -
    have "past_rewards s (?is ! p) = Some (rew (?lg ! p))"
      using update_loop_reads [OF lp, of p] that len_is by simp
    moreover have "?is ! p = t_start s + int (n - 1 - p)"
      using nth_is [OF that] that n by simp
    moreover have "n - 1 - p < n" using that by simp
    then have "past_rewards s (t_start s + int (n - 1 - p)) = Some (r (n - 1 - p))"
      using r by blast
    ultimately show ?thesis by simp
  qed
  let ?m = "n - 1 - k"
  have m: "?m < n" using k by simp
  have "ret (?lg ! ?m) =
      (\<Sum>p\<le>?m. gamma cfg ^ (?m - p) * rew (?lg ! p)) + gamma cfg ^ Suc ?m * bootstrap rep"
    using update_loop_closed_form [OF lp avg, of ?m] m len_is by simp
  also have "(\<Sum>p\<le>?m. gamma cfg ^ (?m - p) * rew (?lg ! p)) =
      (\<Sum>p\<le>?m. gamma cfg ^ (?m - p) * r (n - 1 - p))"
    using rew_lg m by (intro sum.cong) auto
  also have "\<dots> = (\<Sum>j = k..<n. gamma cfg ^ (j - k) * r j)"
    using k by (intro sum.reindex_bij_witness [of _ "\<lambda>j. n - 1 - j" "\<lambda>p. n - 1 - p"])
      (auto simp: add.commute)
  also have "Suc ?m = n - k" using k by simp
  finally have "ret (?lg ! ?m) = discounted_return (gamma cfg) r n (bootstrap rep) k"
    by (simp add: discounted_return_def)
  moreover have "idx (?lg ! ?m) = t_start s + int k"
    using idx_lg [OF m] k n by simp
  ultimately show ?thesis using len by simp
qed


lemma update_full_window:
  "update const_model scenario_cfg None full_window = Inr (scenario_report, drained)"
  by (simp add: update_def full_window_def scenario_cfg_def const_model_def upto_0_2
       update_step_def scale_losses_def Let_def scenario_report_def drained_def power2_eq_square)

text \<open>
  The closed form of claim C1 as stated, with exponent \<open>j - k + 1\<close>, fails on the
  scenario: at the last step of the window the code computes the return 1, the
  stated formula gives 0.9.
\<close>

theorem spec_return_counterexample:
  "update const_model scenario_cfg None full_window = Inr (scenario_report, drained) \<and>
   idx (steps scenario_report ! 0) = t_start full_window + 2 \<and>
   ret (steps scenario_report ! 0) = 1 \<and>
   spec_return (gamma scenario_cfg) unit_rewards 3 (bootstrap scenario_report) 2 = 9 / 10 \<and>
   ret (steps scenario_report ! 0)
     \<noteq> spec_return (gamma scenario_cfg) unit_rewards 3 (bootstrap scenario_report) 2"
  using update_full_window
  by (simp add: scenario_report_def full_window_def scenario_cfg_def spec_return_def
       unit_rewards_def)

text \<open>The closed form of the code at the first step of the scenario's window.\<close>

theorem return_closed_form_witness:
  "update const_model scenario_cfg None full_window = Inr (scenario_report, drained) \<and>
   \<not> use_average_reward scenario_cfg \<and>
   (3::nat) = nat (t full_window - t_start full_window) \<and>
   past_rewards full_window (t_start full_window + 0) = Some (unit_rewards 0) \<and>
   past_rewards full_window (t_start full_window + 1) = Some (unit_rewards 1) \<and>
   past_rewards full_window (t_start full_window + 2) = Some (unit_rewards 2) \<and>
   (0::nat) < 3 \<and>
   ret (steps scenario_report ! 2) = discounted_return (9 / 10) unit_rewards 3 0 0 \<and>
   ret (steps scenario_report ! 2) = 271 / 100"
proof -
  have h1: "update const_model scenario_cfg None full_window = Inr (scenario_report, drained)"
    by (rule update_full_window)
  have h2: "\<not> use_average_reward scenario_cfg" by (simp add: scenario_cfg_def)
  have h3: "(3::nat) = nat (t full_window - t_start full_window)" by (simp add: full_window_def)
  have h4: "\<forall>j<3. past_rewards full_window (t_start full_window + int j) = Some (unit_rewards j)"
    by (simp add: full_window_def unit_rewards_def)
  have h5: "(0::nat) < 3" by simp
  have "ret (steps scenario_report ! (3 - 1 - 0)) =
      discounted_return (gamma scenario_cfg) unit_rewards 3 (bootstrap scenario_report) 0"
    using return_closed_form [OF h1 h2 h3 h4 h5] by blast
  then have c: "ret (steps scenario_report ! 2) = discounted_return (9 / 10) unit_rewards 3 0 0"
    by (simp add: scenario_cfg_def scenario_report_def)
  have v: "ret (steps scenario_report ! 2) = 271 / 100"
    by (simp add: scenario_report_def)
  have r: "past_rewards full_window (t_start full_window + 0) = Some (unit_rewards 0)"
    "past_rewards full_window (t_start full_window + 1) = Some (unit_rewards 1)"
    "past_rewards full_window (t_start full_window + 2) = Some (unit_rewards 2)"
    by (simp_all add: full_window_def unit_rewards_def)
  show ?thesis using h1 h2 h3 r h5 c v by blast
qed

subsection \<open>The baseline in average-reward mode\<close>

lemma update_loop_baseline_k:
  "update_loop cfg is s R pl vl = Inr (s', R', pl', vl', lg) \<Longrightarrow> k < length is \<Longrightarrow>
   baseline (lg ! k) = average_reward s + tau_eff cfg * (\<Sum>p<k. adv (lg ! p))"
  using update_loop_baseline [of cfg "is" s R pl vl s' R' pl' vl' lg] by blast

lemma update_loop_baseline_final:
  "update_loop cfg is s R pl vl = Inr (s', R', pl', vl', lg) \<Longrightarrow>
   average_reward s' = average_reward s + tau_eff cfg * (\<Sum>p<length is. adv (lg ! p))"
  using update_loop_baseline [of cfg "is" s R pl vl s' R' pl' vl' lg] by blast

text \<open>
  Claim C2. In a successful update with average-reward mode on, the passes run over the
  indices \<open>t - 1\<close> down to \<open>t_start\<close>, so pass \<open>k\<close> is the one for index \<open>t - 1 - k\<close> and
  the passes for the greater indices are exactly the \<open>k\<close> passes before it. The baseline
  pass \<open>k\<close> subtracts is the baseline at entry plus \<open>tau\<close> times the advantages of those
  earlier passes, without its own; its own increment is in the baseline the next pass
  reads, and the baseline after the update holds the increments of all passes.
\<close>

theorem baseline_update_order:
  assumes upd: "update M cfg statevar s = Inr (rep, s')"
    and avg: "use_average_reward cfg"
    and k: "k < length (steps rep)"
  shows "map idx (steps rep) = rev [t_start s..t s - 1] \<and>
    idx (steps rep ! k) = t s - 1 - int k \<and>
    {p. p < length (steps rep) \<and> idx (steps rep ! k) < idx (steps rep ! p)} = {..<k} \<and>
    baseline (steps rep ! k) =
      average_reward s + average_reward_tau cfg * (\<Sum>p<k. adv (steps rep ! p)) \<and>
    ret (steps rep ! k) =
      (if k = 0 then bootstrap rep else ret (steps rep ! (k - 1))) * gamma cfg
        + rew (steps rep ! k) - baseline (steps rep ! k) \<and>
    adv (steps rep ! k) = ret (steps rep ! k) - val (steps rep ! k) \<and>
    average_reward s' =
      average_reward s + average_reward_tau cfg * (\<Sum>p<length (steps rep). adv (steps rep ! p))"
proof -
  from upd obtain s1 R pl vl where
    lp: "update_loop cfg (rev [t_start s..t s - 1]) s (bootstrap rep) 0 0
         = Inr (s1, R, pl, vl, steps rep)" and
    s': "s' = s1\<lparr>model := backward_and_update M (model s1) rep,
          past_action_log_prob := Map.empty, past_action_entropy := Map.empty,
          past_states := Map.empty, past_rewards := Map.empty, past_values := Map.empty,
          t_start := t s1\<rparr>"
    by (rule update_Inr)
  let ?is = "rev [t_start s..t s - 1]"
  let ?lg = "steps rep"
  have len: "length ?lg = length ?is" by (rule update_loop_length [OF lp])
  have kis: "k < length ?is" using k len by simp
  have tau: "tau_eff cfg = average_reward_tau cfg" using avg by (simp add: tau_eff_def)
  have ids: "map idx ?lg = ?is" by (rule update_loop_idx [OF lp])
  have idx_lg: "idx (?lg ! p) = t s - 1 - int p" if "p < length ?lg" for p
  proof -
    have "idx (?lg ! p) = map idx ?lg ! p" using that by simp
    also have "\<dots> = ?is ! p" using ids by simp
    also have "\<dots> = t s - 1 - int p" using that len by (simp add: rev_upto_nth)
    finally show ?thesis .
  qed
  have set_eq: "{p. p < length ?lg \<and> idx (?lg ! k) < idx (?lg ! p)} = {..<k}"
    using idx_lg k by auto
  have b: "baseline (?lg ! k) = average_reward s + average_reward_tau cfg * (\<Sum>p<k. adv (?lg ! p))"
    using update_loop_baseline_k [OF lp kis] tau by simp
  have r: "ret (?lg ! k) = (if k = 0 then bootstrap rep else ret (?lg ! (k - 1))) * gamma cfg
        + rew (?lg ! k) - baseline (?lg ! k)"
    using update_loop_ret [OF lp kis] avg by simp
  have a: "adv (?lg ! k) = ret (?lg ! k) - val (?lg ! k)"
    using update_loop_reads [OF lp kis] by simp
  have "average_reward s' = average_reward s1" using s' by simp
  then have f: "average_reward s' =
      average_reward s + average_reward_tau cfg * (\<Sum>p<length ?lg. adv (?lg ! p))"
    using update_loop_baseline_final [OF lp] tau len by simp
  show ?thesis using ids idx_lg [OF k] set_eq b r a f by blast
qed

subsection \<open>The loss transforms\<close>

lemma scale_losses_closed:
  "scale_losses cfg s (pl, vl) =
     (pl * pi_loss_coef cfg * keep_factor cfg (t s - t_start s) / norm_divisor cfg (t s - t_start s),
      vl * v_loss_coef cfg * keep_factor cfg (t s - t_start s) / norm_divisor cfg (t s - t_start s))"
  by (simp add: scale_losses_def keep_factor_def norm_divisor_def Let_def)

text \<open>
  Claim C3. In a successful update over a window of length \<open>n\<close>, with \<open>pl\<close> and \<open>vl\<close> the
  losses the loop accumulated, the reported policy loss is \<open>pl\<close> times \<open>pi_loss_coef\<close>,
  times the keep-scale factor, divided by the normalisation divisor, and likewise the
  value loss with \<open>v_loss_coef\<close>. The factor is horizon over \<open>n\<close> when the option is on and
  \<open>n\<close> is below the horizon, and 1 otherwise; at \<open>n\<close> equal to the horizon it is 1 either
  way. The divisor is \<open>n\<close> when the option is on, and 1 otherwise.
\<close>

theorem loss_transform_order:
  assumes upd: "update M cfg statevar s = Inr (rep, s')"
    and lp: "update_loop cfg (rev [t_start s..t s - 1]) s (bootstrap rep) 0 0
             = Inr (s1, R, pl, vl, lg)"
    and n: "n = t s - t_start s"
  shows "0 < n \<and>
    pi_loss rep = pl * pi_loss_coef cfg * keep_factor cfg n / norm_divisor cfg n \<and>
    v_loss rep = vl * v_loss_coef cfg * keep_factor cfg n / norm_divisor cfg n \<and>
    keep_factor cfg n =
      (if keep_loss_scale_same cfg \<and> n \<le> t_max cfg then real_of_int (t_max cfg) / real_of_int n
       else 1) \<and>
    (if n = t_max cfg then keep_factor cfg n = 1 else True) \<and>
    norm_divisor cfg n = (if normalize_grad_by_t_max cfg then real_of_int n else 1)"
proof -
  from upd obtain s1' R' pl' vl' where
    lt: "t_start s < t s" and
    lp': "update_loop cfg (rev [t_start s..t s - 1]) s (bootstrap rep) 0 0
         = Inr (s1', R', pl', vl', steps rep)" and
    sc: "(pi_loss rep, v_loss rep) = scale_losses cfg s1' (pl', vl')"
    by (rule update_Inr)
  from lp lp' have eq: "s1' = s1" "pl' = pl" "vl' = vl" by simp_all
  have cnt: "t s1 = t s" "t_start s1 = t_start s"
    using update_loop_frame [OF lp] by (metis a3c.select_convs a3c.surjective a3c.update_convs(9))+
  have pos: "0 < n" using lt n by simp
  have "(pi_loss rep, v_loss rep) =
     (pl * pi_loss_coef cfg * keep_factor cfg n / norm_divisor cfg n,
      vl * v_loss_coef cfg * keep_factor cfg n / norm_divisor cfg n)"
    using sc eq cnt n by (simp add: scale_losses_closed)
  moreover have "keep_factor cfg n =
      (if keep_loss_scale_same cfg \<and> n \<le> t_max cfg then real_of_int (t_max cfg) / real_of_int n
       else 1)"
    using pos by (auto simp: keep_factor_def)
  moreover have "(if n = t_max cfg then keep_factor cfg n = 1 else True)"
    by (simp add: keep_factor_def)
  ultimately show ?thesis using pos by (simp add: norm_divisor_def)
qed

subsection \<open>The window after an update\<close>

text \<open>
  Claim C4. After a successful update \<open>t_start\<close> equals \<open>t\<close>, which the update did not
  move, and the five trajectory maps are empty.
\<close>

theorem window_drained:
  assumes "update M cfg statevar s = Inr (rep, s')"
  shows "t_start s' = t s' \<and> t s' = t s \<and>
    past_action_log_prob s' = Map.empty \<and> past_action_entropy s' = Map.empty \<and>
    past_states s' = Map.empty \<and> past_rewards s' = Map.empty \<and> past_values s' = Map.empty"
proof -
  from assms obtain s1 R pl vl where
    lp: "update_loop cfg (rev [t_start s..t s - 1]) s (bootstrap rep) 0 0
         = Inr (s1, R, pl, vl, steps rep)" and
    s': "s' = s1\<lparr>model := backward_and_update M (model s1) rep,
          past_action_log_prob := Map.empty, past_action_entropy := Map.empty,
          past_states := Map.empty, past_rewards := Map.empty, past_values := Map.empty,
          t_start := t s1\<rparr>"
    by (rule update_Inr)
  have "t s1 = t s"
    using update_loop_frame [OF lp] by (metis a3c.select_convs(2) a3c.surjective a3c.update_convs(9))
  then show ?thesis using s' by simp
qed

subsection \<open>The claims on concrete windows\<close>

lemma update_average_window:
  "update const_model average_cfg None full_window = Inr (average_report, average_drained)"
  by (simp add: update_def full_window_def average_cfg_def const_model_def upto_0_2
       update_step_def scale_losses_def Let_def average_report_def average_drained_def
       power2_eq_square)

lemma upto_3_4: "[3..4::int] = [3, 4]"
  by (simp add: upto.simps)

lemma update_loop_sample_window:
  "update_loop sample_cfg (rev [3..4]) sample_window 0 0 0
     = Inr (sample_window, 1, - (7 / 10), 1 / 4, sample_steps)"
  by (simp add: sample_window_def sample_cfg_def upto_3_4 update_step_def Let_def
       sample_steps_def power2_eq_square)

lemma update_sample_window:
  "update const_model sample_cfg None sample_window = Inr (sample_report, sample_drained)"
  by (simp add: update_def sample_window_def sample_cfg_def const_model_def upto_3_4
       update_step_def scale_losses_def Let_def sample_report_def sample_steps_def
       sample_drained_def power2_eq_square)

text \<open>The baseline of the last pass over the scenario's window in average-reward mode.\<close>

theorem baseline_update_order_witness:
  "update const_model average_cfg None full_window = Inr (average_report, average_drained) \<and>
   use_average_reward average_cfg \<and>
   (2::nat) < length (steps average_report) \<and>
   idx (steps average_report ! 2) = t full_window - 1 - 2 \<and>
   baseline (steps average_report ! 2) =
     average_reward full_window
       + average_reward_tau average_cfg * (\<Sum>p<2. adv (steps average_report ! p)) \<and>
   baseline (steps average_report ! 2) = 6 / 5 \<and>
   average_reward average_drained = 173 / 100"
proof -
  have h1: "update const_model average_cfg None full_window
            = Inr (average_report, average_drained)"
    by (rule update_average_window)
  have h2: "use_average_reward average_cfg" by (simp add: average_cfg_def)
  have h3: "(2::nat) < length (steps average_report)" by (simp add: average_report_def)
  note c = baseline_update_order [OF h1 h2 h3]
  from c have c1: "idx (steps average_report ! 2) = t full_window - 1 - int 2" by blast
  from c have c2: "baseline (steps average_report ! 2) =
     average_reward full_window
       + average_reward_tau average_cfg * (\<Sum>p<2. adv (steps average_report ! p))" by blast
  have v: "baseline (steps average_report ! 2) = 6 / 5"
    "average_reward average_drained = 173 / 100"
    by (simp_all add: average_report_def average_drained_def)
  show ?thesis using h1 h2 h3 c1 c2 v by simp
qed

text \<open>The transforms on the two-step window: factor 2, divisor 2.\<close>

theorem loss_transform_order_witness:
  "update const_model sample_cfg None sample_window = Inr (sample_report, sample_drained) \<and>
   update_loop sample_cfg (rev [t_start sample_window..t sample_window - 1]) sample_window
       (bootstrap sample_report) 0 0
     = Inr (sample_window, 1, - (7 / 10), 1 / 4, sample_steps) \<and>
   (2::int) = t sample_window - t_start sample_window \<and>
   pi_loss sample_report
     = - (7 / 10) * pi_loss_coef sample_cfg * keep_factor sample_cfg 2 / norm_divisor sample_cfg 2 \<and>
   v_loss sample_report
     = 1 / 4 * v_loss_coef sample_cfg * keep_factor sample_cfg 2 / norm_divisor sample_cfg 2 \<and>
   keep_factor sample_cfg 2 = 2 \<and> norm_divisor sample_cfg 2 = 2 \<and>
   pi_loss sample_report = - (7 / 5) \<and> v_loss sample_report = 1 / 8"
proof -
  have h1: "update const_model sample_cfg None sample_window
            = Inr (sample_report, sample_drained)"
    by (rule update_sample_window)
  have h2: "update_loop sample_cfg (rev [t_start sample_window..t sample_window - 1])
       sample_window (bootstrap sample_report) 0 0
     = Inr (sample_window, 1, - (7 / 10), 1 / 4, sample_steps)"
    using update_loop_sample_window by (simp add: sample_window_def sample_report_def)
  have h3: "(2::int) = t sample_window - t_start sample_window"
    by (simp add: sample_window_def)
  note c = loss_transform_order [OF h1 h2 h3]
  from c have c1: "pi_loss sample_report
     = - (7 / 10) * pi_loss_coef sample_cfg * keep_factor sample_cfg 2 / norm_divisor sample_cfg 2"
    by blast
  from c have c2: "v_loss sample_report
     = 1 / 4 * v_loss_coef sample_cfg * keep_factor sample_cfg 2 / norm_divisor sample_cfg 2"
    by blast
  have v: "keep_factor sample_cfg 2 = 2" "norm_divisor sample_cfg 2 = 2"
    "pi_loss sample_report = - (7 / 5)" "v_loss sample_report = 1 / 8"
    by (simp_all add: keep_factor_def norm_divisor_def sample_cfg_def sample_report_def)
  show ?thesis using h1 h2 h3 c1 c2 v by blast
qed

text \<open>The scenario's window after its update.\<close>

theorem window_drained_witness:
  "update const_model scenario_cfg None full_window = Inr (scenario_report, drained) \<and>
   t_start drained = t drained \<and> t drained = t full_window \<and>
   past_action_log_prob drained = Map.empty \<and> past_action_entropy drained = Map.empty \<and>
   past_states drained = Map.empty \<and> past_rewards drained = Map.empty \<and>
   past_values drained = Map.empty"
  using window_drained [OF update_full_window] update_full_window by simp

subsection \<open>Failing updates\<close>

lemma avg_update_frame:
  "s1 = s\<lparr>average_reward := b\<rparr> \<Longrightarrow> s' = s1\<lparr>average_reward := c\<rparr> \<Longrightarrow>
   s' = s\<lparr>average_reward := average_reward s'\<rparr>"
  by simp

lemma update_loop_Inl:
  "update_loop cfg is s R pl vl = Inl (e, s') \<Longrightarrow>
   (\<exists>i. e = KeyError i \<and> i \<in> set is) \<and> s' = s\<lparr>average_reward := average_reward s'\<rparr>"
proof (induction "is" arbitrary: s R pl vl)
  case Nil
  then show ?case by simp
next
  case (Cons i "is")
  show ?case
  proof (cases "update_step cfg i s R pl vl")
    case (Inl a)
    with Cons.prems have "update_step cfg i s R pl vl = Inl (e, s')" by simp
    from update_step_Inl [OF this] show ?thesis by simp
  next
    case (Inr b)
    then obtain s1 R1 pl1 vl1 en where
      st: "update_step cfg i s R pl vl = Inr (s1, R1, pl1, vl1, en)"
      by (cases b) auto
    with Cons.prems have lp: "update_loop cfg is s1 R1 pl1 vl1 = Inl (e, s')"
      by (auto split: sum.splits prod.splits)
    from Cons.IH [OF lp] have ih: "\<exists>i. e = KeyError i \<and> i \<in> set is"
      "s' = s1\<lparr>average_reward := average_reward s'\<rparr>" by blast+
    from update_step_Inr(8) [OF st] ih(2) have "s' = s\<lparr>average_reward := average_reward s'\<rparr>"
      by (rule avg_update_frame)
    with ih(1) show ?thesis by auto
  qed
qed

lemma update_Inl:
  assumes "update M cfg statevar s = Inl (e, s')"
  shows "(e = AssertionError \<and> s' = s \<and> \<not> t_start s < t s) \<or>
         ((\<exists>i. e = KeyError i) \<and> t_start s < t s \<and> s' = s\<lparr>average_reward := average_reward s'\<rparr>)"
proof (cases "t_start s < t s")
  case False
  with assms show ?thesis by (simp add: update_def)
next
  case True
  with assms obtain R0 where "update_loop cfg (rev [t_start s..t s - 1]) s R0 0 0 = Inl (e, s')"
    by (auto simp: update_def Let_def split: sum.splits prod.splits)
  from update_loop_Inl [OF this] True show ?thesis by blast
qed

lemma update_Inl_assert:
  "update M cfg statevar s = Inl (AssertionError, s') \<Longrightarrow> s' = s"
  using update_Inl [of M cfg statevar s AssertionError s'] by auto

subsection \<open>act\<close>

text \<open>
  Claim C9. \<^verbatim>\<open>act\<close> leaves the agent as it was but for the thread-specific model, which
  is as its evaluation on the observation left it: the counters, the five trajectory
  maps and the baseline are unchanged. It returns the most probable action in
  deterministic mode and a sample otherwise.
\<close>

theorem act_frame:
  "snd (act M cfg obs rnd s) = s\<lparr>model := snd (pi_and_v M (model s) (phi cfg obs))\<rparr> \<and>
   t (snd (act M cfg obs rnd s)) = t s \<and>
   t_start (snd (act M cfg obs rnd s)) = t_start s \<and>
   past_action_log_prob (snd (act M cfg obs rnd s)) = past_action_log_prob s \<and>
   past_action_entropy (snd (act M cfg obs rnd s)) = past_action_entropy s \<and>
   past_states (snd (act M cfg obs rnd s)) = past_states s \<and>
   past_rewards (snd (act M cfg obs rnd s)) = past_rewards s \<and>
   past_values (snd (act M cfg obs rnd s)) = past_values s \<and>
   average_reward (snd (act M cfg obs rnd s)) = average_reward s \<and>
   fst (act M cfg obs rnd s) =
     (if act_deterministically cfg
      then most_probable (fst (fst (pi_and_v M (model s) (phi cfg obs))))
      else sample (fst (fst (pi_and_v M (model s) (phi cfg obs)))) rnd)"
  by (simp add: act_def Let_def split: prod.splits)

subsection \<open>The agent after a failed call\<close>

text \<open>
  Claim C7, as the code has it. When \<^verbatim>\<open>act_and_train\<close> or \<^verbatim>\<open>stop_episode_and_train\<close>
  raises the assertion of \<^verbatim>\<open>update\<close>, the agent is the one before the call with the
  reward, clipped when the flag is set, stored at index \<open>t - 1\<close>; nothing else has
  changed. In \<^verbatim>\<open>act_and_train\<close> this happens only with a horizon of 0 or less.
\<close>

theorem failed_call_state:
  "(act_and_train M cfg state reward rnd s = Inl (AssertionError, s') \<longrightarrow>
      s' = store_reward cfg reward s \<and> t s - t_start s = t_max cfg \<and> t_max cfg \<le> 0) \<and>
   (stop_episode_and_train M cfg state reward done s = Inl (AssertionError, s'') \<longrightarrow>
      s'' = store_reward cfg reward s \<and> t s \<le> t_start s) \<and>
   store_reward cfg reward s =
     s\<lparr>past_rewards := (past_rewards s)
          (t s - 1 \<mapsto> if clip_reward cfg then np_clip reward (- 1) 1 else reward)\<rparr>"
proof (intro conjI impI)
  assume a: "act_and_train M cfg state reward rnd s = Inl (AssertionError, s')"
  let ?s1 = "store_reward cfg reward s"
  have cnt: "t ?s1 = t s" "t_start ?s1 = t_start s" by (simp_all add: store_reward_def Let_def)
  from a have eq: "t ?s1 - t_start ?s1 = t_max cfg"
    by (auto simp: act_and_train_def Let_def split: if_splits sum.splits prod.splits)
  with a have u: "update M cfg (Some (phi cfg state)) ?s1 = Inl (AssertionError, s')"
    by (auto simp: act_and_train_def Let_def split: if_splits sum.splits prod.splits)
  from update_Inl [OF u] have "s' = ?s1" "\<not> t_start ?s1 < t ?s1" by auto
  then show "s' = ?s1" "t s - t_start s = t_max cfg" "t_max cfg \<le> 0" using eq cnt by auto
next
  assume a: "stop_episode_and_train M cfg state reward done s = Inl (AssertionError, s'')"
  let ?s1 = "store_reward cfg reward s"
  have cnt: "t ?s1 = t s" "t_start ?s1 = t_start s" by (simp_all add: store_reward_def Let_def)
  from a obtain sv where u: "update M cfg sv ?s1 = Inl (AssertionError, s'')"
    by (auto simp: stop_episode_and_train_def Let_def split: if_splits sum.splits prod.splits)
  from update_Inl [OF u] have "s'' = ?s1" "\<not> t_start ?s1 < t ?s1" by auto
  then show "s'' = ?s1" "t s \<le> t_start s" using cnt by auto
next
  show "store_reward cfg reward s =
     s\<lparr>past_rewards := (past_rewards s)
          (t s - 1 \<mapsto> if clip_reward cfg then np_clip reward (- 1) 1 else reward)\<rparr>"
    by (simp add: store_reward_def Let_def)
qed

text \<open>
  Claim C7 as stated fails on a fresh agent: \<^verbatim>\<open>stop_episode_and_train\<close> raises the
  assertion and leaves the clipped reward in \<^verbatim>\<open>past_rewards\<close> at index \<open>-1\<close>, where
  there was nothing before.
\<close>

theorem failed_call_state_counterexample:
  "stop_episode_and_train const_model scenario_cfg () 5 True (init ())
     = Inl (AssertionError, (init ())\<lparr>past_rewards := [- 1 \<mapsto> 1]\<rparr>) \<and>
   past_rewards ((init ())\<lparr>past_rewards := [- 1 \<mapsto> 1]\<rparr> :: (unit, unit) a3c) (- 1) = Some 1 \<and>
   past_rewards (init () :: (unit, unit) a3c) (- 1) = None"
  by (simp add: stop_episode_and_train_def store_reward_def update_def init_def
       scenario_cfg_def np_clip_def)

subsection \<open>The parts of the training calls\<close>

lemma store_reward_simps:
  "t (store_reward cfg reward s) = t s"
  "t_start (store_reward cfg reward s) = t_start s"
  "model (store_reward cfg reward s) = model s"
  "average_reward (store_reward cfg reward s) = average_reward s"
  "past_values (store_reward cfg reward s) = past_values s"
  "past_states (store_reward cfg reward s) = past_states s"
  "past_action_log_prob (store_reward cfg reward s) = past_action_log_prob s"
  "past_action_entropy (store_reward cfg reward s) = past_action_entropy s"
  "past_rewards (store_reward cfg reward s) =
     (past_rewards s)(t s - 1 \<mapsto> if clip_reward cfg then np_clip reward (- 1) 1 else reward)"
  by (simp_all add: store_reward_def Let_def)

lemma record_entry_simps:
  "t (snd (record_entry M statevar rnd s)) = t s + 1"
  "t_start (snd (record_entry M statevar rnd s)) = t_start s"
  "average_reward (snd (record_entry M statevar rnd s)) = average_reward s"
  "past_rewards (snd (record_entry M statevar rnd s)) = past_rewards s"
  "past_states (snd (record_entry M statevar rnd s)) = (past_states s)(t s \<mapsto> statevar)"
  "dom (past_values (snd (record_entry M statevar rnd s))) = insert (t s) (dom (past_values s))"
  "dom (past_action_log_prob (snd (record_entry M statevar rnd s)))
     = insert (t s) (dom (past_action_log_prob s))"
  "dom (past_action_entropy (snd (record_entry M statevar rnd s)))
     = insert (t s) (dom (past_action_entropy s))"
  by (simp_all add: record_entry_def Let_def split: prod.splits)

lemma act_and_train_cases:
  fixes M :: "('o, 'a, 'm) collaborators"
  obtains
    (raised) e s' where
      "t s - t_start s = t_max cfg"
      "update M cfg (Some (phi cfg state)) (store_reward cfg reward s) = Inl (e, s')"
      "act_and_train M cfg state reward rnd s = Inl (e, s')"
  | (updated) rep s2 where
      "t s - t_start s = t_max cfg"
      "update M cfg (Some (phi cfg state)) (store_reward cfg reward s) = Inr (rep, s2)"
      "act_and_train M cfg state reward rnd s =
         Inr ((fst (record_entry M (phi cfg state) rnd s2), Some rep),
              snd (record_entry M (phi cfg state) rnd s2))"
  | (plain)
      "t s - t_start s \<noteq> t_max cfg"
      "act_and_train M cfg state reward rnd s =
         Inr ((fst (record_entry M (phi cfg state) rnd (store_reward cfg reward s)), None),
              snd (record_entry M (phi cfg state) rnd (store_reward cfg reward s)))"
proof (cases "t s - t_start s = t_max cfg")
  case False
  then have "act_and_train M cfg state reward rnd s =
         Inr ((fst (record_entry M (phi cfg state) rnd (store_reward cfg reward s)), None),
              snd (record_entry M (phi cfg state) rnd (store_reward cfg reward s)))"
    by (simp add: act_and_train_def Let_def store_reward_simps split: prod.splits)
  with False show ?thesis by (rule plain)
next
  case True
  show ?thesis
  proof (cases "update M cfg (Some (phi cfg state)) (store_reward cfg reward s)")
    case (Inl a)
    obtain e s' where a: "a = (e, s')" by (cases a)
    with Inl True have "act_and_train M cfg state reward rnd s = Inl (e, s')"
      by (simp add: act_and_train_def Let_def store_reward_simps)
    with True Inl a show ?thesis by (auto intro: raised)
  next
    case (Inr b)
    obtain rep s2 where b: "b = (rep, s2)" by (cases b)
    with Inr True have "act_and_train M cfg state reward rnd s =
         Inr ((fst (record_entry M (phi cfg state) rnd s2), Some rep),
              snd (record_entry M (phi cfg state) rnd s2))"
      by (simp add: act_and_train_def Let_def store_reward_simps split: prod.splits)
    with True Inr b show ?thesis by (auto intro: updated)
  qed
qed

lemma stop_episode_and_train_cases:
  fixes M :: "('o, 'a, 'm) collaborators"
  obtains
    (raised) e s' where
      "update M cfg (if done then None else Some (phi cfg state)) (store_reward cfg reward s)
         = Inl (e, s')"
      "stop_episode_and_train M cfg state reward done s = Inl (e, s')"
  | (updated) rep s2 where
      "update M cfg (if done then None else Some (phi cfg state)) (store_reward cfg reward s)
         = Inr (rep, s2)"
      "stop_episode_and_train M cfg state reward done s = Inr (rep, stop_episode M s2)"
proof (cases "update M cfg (if done then None else Some (phi cfg state))
                (store_reward cfg reward s)")
  case (Inl a)
  obtain e s' where a: "a = (e, s')" by (cases a)
  with Inl have "stop_episode_and_train M cfg state reward done s = Inl (e, s')"
    by (simp add: stop_episode_and_train_def Let_def split: if_splits)
  with Inl a show ?thesis by (auto intro: raised)
next
  case (Inr b)
  obtain rep s2 where b: "b = (rep, s2)" by (cases b)
  with Inr have "stop_episode_and_train M cfg state reward done s = Inr (rep, stop_episode M s2)"
    by (simp add: stop_episode_and_train_def stop_episode_def Let_def split: if_splits)
  with Inr b show ?thesis by (auto intro: updated)
qed



subsection \<open>Reward clipping\<close>


subsection \<open>Runs of the concrete agent\<close>

lemmas concrete_defs =
  const_model_def const_dist_def scenario_cfg_def init_def call_op_def act_and_train_def
  stop_episode_and_train_def stop_episode_def act_def record_entry_def store_reward_def
  np_clip_def update_def update_step_def scale_losses_def Let_def upto_0_2 power2_eq_square




text \<open>Both calls raising on a fresh agent, the first under a horizon of 0.\<close>

theorem failed_call_state_witness:
  "act_and_train const_model zero_horizon_cfg () 5 0 (init ())
     = Inl (AssertionError, (init ())\<lparr>past_rewards := [- 1 \<mapsto> 1]\<rparr> :: (unit, unit) a3c) \<and>
   stop_episode_and_train const_model scenario_cfg () 5 True (init ())
     = Inl (AssertionError, (init ())\<lparr>past_rewards := [- 1 \<mapsto> 1]\<rparr> :: (unit, unit) a3c) \<and>
   (init ())\<lparr>past_rewards := [- 1 \<mapsto> 1]\<rparr>
     = store_reward zero_horizon_cfg 5 (init () :: (unit, unit) a3c) \<and>
   (init ())\<lparr>past_rewards := [- 1 \<mapsto> 1]\<rparr>
     = store_reward scenario_cfg 5 (init () :: (unit, unit) a3c) \<and>
   t_max zero_horizon_cfg \<le> 0 \<and>
   t (init () :: (unit, unit) a3c) \<le> t_start (init () :: (unit, unit) a3c)"
proof -
  let ?s' = "(init ())\<lparr>past_rewards := [- 1 \<mapsto> 1]\<rparr> :: (unit, unit) a3c"
  have h1: "act_and_train const_model zero_horizon_cfg () 5 0 (init ()) = Inl (AssertionError, ?s')"
    by (simp add: act_and_train_def store_reward_def update_def init_def
         zero_horizon_cfg_def np_clip_def)
  have h2: "stop_episode_and_train const_model scenario_cfg () 5 True (init ())
      = Inl (AssertionError, ?s')"
    by (simp add: stop_episode_and_train_def store_reward_def update_def init_def
         scenario_cfg_def np_clip_def)
  from failed_call_state [of const_model zero_horizon_cfg "()" 5 0 "init ()" ?s' True ?s'] h1
  have c1: "?s' = store_reward zero_horizon_cfg 5 (init ())" "t_max zero_horizon_cfg \<le> 0"
    by blast+
  from failed_call_state [of const_model scenario_cfg "()" 5 0 "init ()" ?s' True ?s'] h2
  have c2: "?s' = store_reward scenario_cfg 5 (init ())"
    "t (init () :: (unit, unit) a3c) \<le> t_start (init () :: (unit, unit) a3c)"
    by blast+
  show ?thesis using h1 h2 c1 c2 by blast
qed

subsection \<open>Reachable agents\<close>

lemma update_step_ok:
  assumes "i \<in> dom (past_rewards s)" "i \<in> dom (past_values s)"
    "i \<in> dom (past_action_log_prob s)" "i \<in> dom (past_action_entropy s)"
    "i \<in> dom (past_states s)"
  shows "\<exists>res. update_step cfg i s R pl vl = Inr res"
  using assms unfolding update_step_def
  by (auto simp: Let_def split: option.splits)

lemma update_loop_ok:
  assumes "set is \<subseteq> dom (past_rewards s)" "set is \<subseteq> dom (past_values s)"
    "set is \<subseteq> dom (past_action_log_prob s)" "set is \<subseteq> dom (past_action_entropy s)"
    "set is \<subseteq> dom (past_states s)"
  shows "\<exists>res. update_loop cfg is s R pl vl = Inr res"
  using assms
proof (induction "is" arbitrary: s R pl vl)
  case Nil
  then show ?case by simp
next
  case (Cons i "is")
  from Cons.prems have "\<exists>res. update_step cfg i s R pl vl = Inr res"
    by (intro update_step_ok) auto
  then obtain s1 R1 pl1 vl1 en where
    st: "update_step cfg i s R pl vl = Inr (s1, R1, pl1, vl1, en)"
    by (metis prod_cases5)
  from update_step_Inr(8) [OF st] have maps:
    "past_rewards s1 = past_rewards s" "past_values s1 = past_values s"
    "past_action_log_prob s1 = past_action_log_prob s"
    "past_action_entropy s1 = past_action_entropy s" "past_states s1 = past_states s"
    by simp_all
  with Cons.prems have "\<exists>res. update_loop cfg is s1 R1 pl1 vl1 = Inr res"
    by (intro Cons.IH) auto
  then obtain s2 R2 pl2 vl2 lg where "update_loop cfg is s1 R1 pl1 vl1 = Inr (s2, R2, pl2, vl2, lg)"
    by (metis prod_cases5)
  with st show ?case by simp
qed

lemma update_ok:
  assumes lt: "t_start s < t s"
    and keys: "\<forall>i. t_start s \<le> i \<and> i < t s \<longrightarrow>
      i \<in> dom (past_rewards s) \<and> i \<in> dom (past_values s) \<and>
      i \<in> dom (past_action_log_prob s) \<and> i \<in> dom (past_action_entropy s) \<and>
      i \<in> dom (past_states s)"
  shows "\<exists>rep s'. update M cfg statevar s = Inr (rep, s')"
proof -
  define R0 where
    "R0 = (case statevar of None \<Rightarrow> 0 | Some sv \<Rightarrow> snd (fst (pi_and_v M (model s) sv)))"
  have "set (rev [t_start s..t s - 1]) = {i. t_start s \<le> i \<and> i < t s}" by auto
  with keys have "\<exists>res. update_loop cfg (rev [t_start s..t s - 1]) s R0 0 0 = Inr res"
    by (intro update_loop_ok) auto
  then obtain s1 R pl vl lg where
    "update_loop cfg (rev [t_start s..t s - 1]) s R0 0 0 = Inr (s1, R, pl, vl, lg)"
    by (metis prod_cases5)
  then show ?thesis using lt
    by (simp add: update_def Let_def R0_def split: prod.splits)
qed

lemma window_ok_store:
  assumes "window_ok s"
  shows "window_ok (store_reward cfg reward s)"
    and "\<forall>i. t_start s \<le> i \<and> i < t s \<longrightarrow> i \<in> dom (past_rewards (store_reward cfg reward s))"
proof -
  show "window_ok (store_reward cfg reward s)"
    using assms by (simp add: window_ok_def store_reward_simps)
  show "\<forall>i. t_start s \<le> i \<and> i < t s \<longrightarrow> i \<in> dom (past_rewards (store_reward cfg reward s))"
  proof (intro allI impI)
    fix i assume i: "t_start s \<le> i \<and> i < t s"
    show "i \<in> dom (past_rewards (store_reward cfg reward s))"
    proof (cases "i = t s - 1")
      case True
      then show ?thesis by (simp add: store_reward_simps)
    next
      case False
      with i have "t_start s \<le> i \<and> i < t s - 1" by simp
      with assms have "i \<in> dom (past_rewards s)" by (simp add: window_ok_def)
      then show ?thesis by (simp add: store_reward_simps)
    qed
  qed
qed

lemma update_after_store:
  assumes "window_ok s"
  shows "(t_start s < t s \<and> (\<exists>rep s'. update M cfg statevar (store_reward cfg reward s) = Inr (rep, s')))
       \<or> (t s = t_start s \<and>
          update M cfg statevar (store_reward cfg reward s)
            = Inl (AssertionError, store_reward cfg reward s))"
proof (cases "t_start s < t s")
  case True
  let ?s1 = "store_reward cfg reward s"
  from assms have ok: "window_ok ?s1"
    "\<forall>i. t_start s \<le> i \<and> i < t s \<longrightarrow> i \<in> dom (past_rewards ?s1)"
    by (rule window_ok_store)+
  have "\<exists>rep s'. update M cfg statevar ?s1 = Inr (rep, s')"
  proof (rule update_ok)
    show "t_start ?s1 < t ?s1" using True by (simp add: store_reward_simps)
    show "\<forall>i. t_start ?s1 \<le> i \<and> i < t ?s1 \<longrightarrow>
      i \<in> dom (past_rewards ?s1) \<and> i \<in> dom (past_values ?s1) \<and>
      i \<in> dom (past_action_log_prob ?s1) \<and> i \<in> dom (past_action_entropy ?s1) \<and>
      i \<in> dom (past_states ?s1)"
      using ok(2) assms by (simp add: window_ok_def store_reward_simps)
  qed
  with True show ?thesis by blast
next
  case False
  with assms have "t s = t_start s" by (simp add: window_ok_def)
  then show ?thesis by (simp add: update_def store_reward_simps)
qed

lemma window_ok_record:
  assumes ok: "window_ok s"
    and rw: "\<forall>i. t_start s \<le> i \<and> i < t s \<longrightarrow> i \<in> dom (past_rewards s)"
  shows "window_ok (snd (record_entry M statevar rnd s))"
proof -
  let ?s' = "snd (record_entry M statevar rnd s)"
  have "i \<in> dom (past_values ?s') \<and> i \<in> dom (past_action_log_prob ?s') \<and>
        i \<in> dom (past_action_entropy ?s') \<and> i \<in> dom (past_states ?s')"
    if "t_start s \<le> i \<and> i < t s + 1" for i
  proof (cases "i = t s")
    case True
    then show ?thesis by (simp add: record_entry_simps)
  next
    case False
    with that have "t_start s \<le> i \<and> i < t s" by simp
    with ok have "i \<in> dom (past_values s) \<and> i \<in> dom (past_action_log_prob s) \<and>
        i \<in> dom (past_action_entropy s) \<and> i \<in> dom (past_states s)"
      by (simp add: window_ok_def)
    then show ?thesis by (simp add: record_entry_simps)
  qed
  moreover have "t_start s \<le> t s" using ok by (simp add: window_ok_def)
  ultimately show ?thesis using rw by (simp add: window_ok_def record_entry_simps)
qed

lemma window_ok_drained:
  assumes "update M cfg statevar s = Inr (rep, s')"
  shows "window_ok s'"
    and "\<forall>i. t_start s' \<le> i \<and> i < t s' \<longrightarrow> i \<in> dom (past_rewards s')"
  using window_drained [OF assms] by (simp_all add: window_ok_def)

lemma window_ok_stop_episode: "window_ok s \<Longrightarrow> window_ok (stop_episode M s)"
  by (simp add: window_ok_def stop_episode_def)

lemma window_ok_act: "window_ok s \<Longrightarrow> window_ok (snd (act M cfg obs rnd s))"
  by (simp add: window_ok_def act_def Let_def split: prod.splits)

lemma window_ok_init: "window_ok (init m)"
  by (simp add: window_ok_def init_def)

lemma call_act_and_train_window [consumes 1, case_names plain updated raised]:
  fixes M :: "('o, 'a, 'm) collaborators"
  assumes ok: "window_ok s"
  obtains
    (plain) a where
      "t s - t_start s \<noteq> t_max cfg"
      "call_op M cfg (ActAndTrain state reward rnd) s
         = (Acted a None, snd (record_entry M (phi cfg state) rnd (store_reward cfg reward s)))"
      "window_ok (snd (call_op M cfg (ActAndTrain state reward rnd) s))"
  | (updated) a rep s2 where
      "t s - t_start s = t_max cfg" "t_start s < t s"
      "update M cfg (Some (phi cfg state)) (store_reward cfg reward s) = Inr (rep, s2)"
      "call_op M cfg (ActAndTrain state reward rnd) s
         = (Acted a (Some rep), snd (record_entry M (phi cfg state) rnd s2))"
      "window_ok (snd (call_op M cfg (ActAndTrain state reward rnd) s))"
  | (raised)
      "t s - t_start s = t_max cfg" "t s = t_start s"
      "call_op M cfg (ActAndTrain state reward rnd) s
         = (Raised AssertionError, store_reward cfg reward s)"
      "window_ok (snd (call_op M cfg (ActAndTrain state reward rnd) s))"
proof (cases rule: act_and_train_cases [of s cfg M state reward rnd])
  case (raised e s')
  from update_after_store [OF ok, of M cfg "Some (phi cfg state)" reward] raised(2)
  have eq: "t s = t_start s" "e = AssertionError" "s' = store_reward cfg reward s" by auto
  have c: "call_op M cfg (ActAndTrain state reward rnd) s
         = (Raised AssertionError, store_reward cfg reward s)"
    using raised(3) eq by (simp add: call_op_def)
  moreover have "window_ok (snd (call_op M cfg (ActAndTrain state reward rnd) s))"
    using c window_ok_store(1) [OF ok] by simp
  ultimately show ?thesis using raised(1) eq(1) that(3) by blast
next
  case (updated rep s2)
  from update_after_store [OF ok, of M cfg "Some (phi cfg state)" reward] updated(2)
  have lt: "t_start s < t s" by auto
  have c: "call_op M cfg (ActAndTrain state reward rnd) s
         = (Acted (fst (record_entry M (phi cfg state) rnd s2)) (Some rep),
            snd (record_entry M (phi cfg state) rnd s2))"
    using updated(3) by (simp add: call_op_def)
  moreover have "window_ok (snd (record_entry M (phi cfg state) rnd s2))"
    using window_ok_drained [OF updated(2)] by (rule window_ok_record)
  ultimately show ?thesis using updated(1,2) lt that(2) by simp
next
  case plain
  have c: "call_op M cfg (ActAndTrain state reward rnd) s
         = (Acted (fst (record_entry M (phi cfg state) rnd (store_reward cfg reward s))) None,
            snd (record_entry M (phi cfg state) rnd (store_reward cfg reward s)))"
    using plain(2) by (simp add: call_op_def)
  moreover have "window_ok (snd (record_entry M (phi cfg state) rnd (store_reward cfg reward s)))"
  proof (rule window_ok_record)
    show "window_ok (store_reward cfg reward s)" by (rule window_ok_store(1) [OF ok])
    show "\<forall>i. t_start (store_reward cfg reward s) \<le> i \<and> i < t (store_reward cfg reward s)
        \<longrightarrow> i \<in> dom (past_rewards (store_reward cfg reward s))"
      using window_ok_store(2) [OF ok, of cfg reward] by (simp add: store_reward_simps)
  qed
  ultimately show ?thesis using plain(1) that(1) by simp
qed

lemma call_stop_train_window [consumes 1, case_names updated raised]:
  fixes M :: "('o, 'a, 'm) collaborators"
  assumes ok: "window_ok s"
  obtains
    (updated) rep s2 where
      "t_start s < t s"
      "update M cfg (if dn then None else Some (phi cfg state)) (store_reward cfg reward s)
         = Inr (rep, s2)"
      "call_op M cfg (StopEpisodeAndTrain state reward dn) s
         = (Stopped (Some rep) :: 'a event, stop_episode M s2)"
      "window_ok (snd (call_op M cfg (StopEpisodeAndTrain state reward dn) s))"
  | (raised)
      "t s = t_start s"
      "call_op M cfg (StopEpisodeAndTrain state reward dn) s
         = (Raised AssertionError :: 'a event, store_reward cfg reward s)"
      "window_ok (snd (call_op M cfg (StopEpisodeAndTrain state reward dn) s))"
proof (cases rule: stop_episode_and_train_cases [of M cfg dn state reward s])
  case (raised e s')
  from update_after_store [OF ok, of M cfg "if dn then None else Some (phi cfg state)" reward]
    raised(1)
  have eq: "t s = t_start s" "e = AssertionError" "s' = store_reward cfg reward s" by auto
  have c: "call_op M cfg (StopEpisodeAndTrain state reward dn) s
         = (Raised AssertionError :: 'a event, store_reward cfg reward s)"
    using raised(2) eq by (simp add: call_op_def)
  moreover have "window_ok (snd (call_op M cfg (StopEpisodeAndTrain state reward dn) s))"
    using c window_ok_store(1) [OF ok] by simp
  ultimately show ?thesis using eq(1) that(2) by blast
next
  case (updated rep s2)
  from update_after_store [OF ok, of M cfg "if dn then None else Some (phi cfg state)" reward]
    updated(1)
  have lt: "t_start s < t s" by auto
  have c: "call_op M cfg (StopEpisodeAndTrain state reward dn) s
         = (Stopped (Some rep) :: 'a event, stop_episode M s2)"
    using updated(2) by (simp add: call_op_def)
  moreover have "window_ok (stop_episode M s2)"
    using window_ok_drained(1) [OF updated(1)] by (rule window_ok_stop_episode)
  ultimately show ?thesis using updated(1) lt that(1) by simp
qed

lemma call_act:
  "call_op M cfg (Act obs rnd) s = (Acted (fst (act M cfg obs rnd s)) None, snd (act M cfg obs rnd s))"
  by (simp add: call_op_def split: prod.splits)

lemma call_stop_episode:
  "call_op M cfg StopEpisode s = (Stopped None, stop_episode M s)"
  by (simp add: call_op_def)

lemma act_counters:
  "t (snd (act M cfg obs rnd s)) = t s" "t_start (snd (act M cfg obs rnd s)) = t_start s"
  by (simp_all add: act_def Let_def split: prod.splits)

lemma stop_episode_counters:
  "t (stop_episode M s) = t s" "t_start (stop_episode M s) = t_start s"
  by (simp_all add: stop_episode_def)

lemma window_ok_call:
  assumes "window_ok s"
  shows "window_ok (snd (call_op M cfg c s))"
proof (cases c)
  case (ActAndTrain state reward rnd)
  show ?thesis unfolding ActAndTrain
    by (cases rule: call_act_and_train_window [OF assms, of cfg M state reward rnd]) simp_all
next
  case (Act obs rnd)
  then show ?thesis using window_ok_act [OF assms] by (simp add: call_act)
next
  case (StopEpisodeAndTrain state reward dn)
  show ?thesis unfolding StopEpisodeAndTrain
    by (cases rule: call_stop_train_window [OF assms, of M cfg dn state reward]) simp_all
next
  case StopEpisode
  then show ?thesis using window_ok_stop_episode [OF assms] by (simp add: call_stop_episode)
qed

lemma exec_Cons:
  "exec M cfg (c # cs) s =
     (fst (call_op M cfg c s) # fst (exec M cfg cs (snd (call_op M cfg c s))),
      snd (exec M cfg cs (snd (call_op M cfg c s))))"
  by (simp add: Let_def split: prod.splits)

lemma exec_append:
  "exec M cfg (cs @ ds) s =
     (fst (exec M cfg cs s) @ fst (exec M cfg ds (snd (exec M cfg cs s))),
      snd (exec M cfg ds (snd (exec M cfg cs s))))"
  by (induction cs arbitrary: s) (simp_all add: exec_Cons del: exec.simps(2))

lemma window_ok_exec:
  "window_ok s \<Longrightarrow> window_ok (snd (exec M cfg cs s))"
  by (induction cs arbitrary: s) (simp_all add: exec_Cons window_ok_call del: exec.simps(2))

lemma update_counters:
  assumes "update M cfg statevar s = Inr (rep, s')"
  shows "t s' = t s" "t_start s' = t s"
  using window_drained [OF assms] by simp_all

lemma call_counters:
  assumes ok: "window_ok s"
  shows "t_start s \<le> t_start (snd (call_op M cfg c s)) \<and>
         t_start (snd (call_op M cfg c s)) \<le> t (snd (call_op M cfg c s))"
  using window_ok_call [OF ok, of M cfg c] ok
proof (cases c)
  case (ActAndTrain state reward rnd)
  show ?thesis using ok
  proof (cases rule: call_act_and_train_window [where cfg = cfg and M = M and state = state
        and reward = reward and rnd = rnd])
    case (plain a)
    then show ?thesis using ActAndTrain ok by (simp add: record_entry_simps store_reward_simps window_ok_def)
  next
    case (updated a rep s2)
    then show ?thesis using ActAndTrain ok update_counters [OF updated(3)]
      by (simp add: record_entry_simps store_reward_simps window_ok_def)
  next
    case raised
    then show ?thesis using ActAndTrain ok by (simp add: store_reward_simps window_ok_def)
  qed
next
  case (Act obs rnd)
  then show ?thesis using ok by (simp add: call_act act_counters window_ok_def)
next
  case (StopEpisodeAndTrain state reward dn)
  show ?thesis using ok
  proof (cases rule: call_stop_train_window [where cfg = cfg and M = M and state = state
        and reward = reward and dn = dn])
    case (updated rep s2)
    then show ?thesis using StopEpisodeAndTrain ok update_counters [OF updated(2)]
      by (simp add: stop_episode_counters store_reward_simps window_ok_def)
  next
    case raised
    then show ?thesis using StopEpisodeAndTrain ok by (simp add: store_reward_simps window_ok_def)
  qed
next
  case StopEpisode
  then show ?thesis using ok by (simp add: call_stop_episode stop_episode_counters window_ok_def)
qed

lemma bounded_call:
  assumes ok: "window_ok s" and le: "t s - t_start s \<le> t_max cfg"
  shows "t (snd (call_op M cfg c s)) - t_start (snd (call_op M cfg c s)) \<le> t_max cfg"
proof (cases c)
  case (ActAndTrain state reward rnd)
  show ?thesis using ok
  proof (cases rule: call_act_and_train_window [where cfg = cfg and M = M and state = state
        and reward = reward and rnd = rnd])
    case (plain a)
    then show ?thesis using ActAndTrain le by (simp add: record_entry_simps store_reward_simps)
  next
    case (updated a rep s2)
    then show ?thesis using ActAndTrain le update_counters [OF updated(3)]
      by (simp add: record_entry_simps store_reward_simps)
  next
    case raised
    then show ?thesis using ActAndTrain le by (simp add: store_reward_simps)
  qed
next
  case (Act obs rnd)
  then show ?thesis using le by (simp add: call_act act_counters)
next
  case (StopEpisodeAndTrain state reward dn)
  show ?thesis using ok
  proof (cases rule: call_stop_train_window [where cfg = cfg and M = M and state = state
        and reward = reward and dn = dn])
    case (updated rep s2)
    then show ?thesis using StopEpisodeAndTrain le update_counters [OF updated(2)]
      by (simp add: stop_episode_counters store_reward_simps)
  next
    case raised
    then show ?thesis using StopEpisodeAndTrain le by (simp add: store_reward_simps)
  qed
next
  case StopEpisode
  then show ?thesis using le by (simp add: call_stop_episode stop_episode_counters)
qed

lemma bounded_exec:
  "window_ok s \<Longrightarrow> t s - t_start s \<le> t_max cfg \<Longrightarrow>
   t (snd (exec M cfg cs s)) - t_start (snd (exec M cfg cs s)) \<le> t_max cfg"
  by (induction cs arbitrary: s)
     (simp_all add: exec_Cons window_ok_call bounded_call del: exec.simps(2))

lemma closed_call:
  assumes ok: "window_ok s" and b: "b \<longrightarrow> t s = t_start s"
    and cl: "window_closed b (c # cs)"
  shows "\<exists>b'. window_closed b' cs \<and> (b' \<longrightarrow> t (snd (call_op M cfg c s)) = t_start (snd (call_op M cfg c s)))"
proof (cases c)
  case (ActAndTrain state reward rnd)
  with cl have "window_closed False cs" by simp
  then show ?thesis by blast
next
  case (Act obs rnd)
  with cl b show ?thesis by (auto simp: call_act act_counters)
next
  case (StopEpisodeAndTrain state reward dn)
  with cl have c: "window_closed True cs" by simp
  have "t (snd (call_op M cfg (StopEpisodeAndTrain state reward dn) s))
      = t_start (snd (call_op M cfg (StopEpisodeAndTrain state reward dn) s))"
    using ok
  proof (cases rule: call_stop_train_window [where cfg = cfg and M = M and state = state
        and reward = reward and dn = dn])
    case (updated rep s2)
    then show ?thesis using update_counters [OF updated(2)]
      by (simp add: stop_episode_counters)
  next
    case raised
    then show ?thesis by (simp add: store_reward_simps)
  qed
  with c StopEpisodeAndTrain show ?thesis by blast
next
  case StopEpisode
  with cl b show ?thesis by (auto simp: call_stop_episode stop_episode_counters)
qed

lemma closed_exec:
  "window_ok s \<Longrightarrow> b \<longrightarrow> t s = t_start s \<Longrightarrow> window_closed b cs \<Longrightarrow>
   t (snd (exec M cfg cs s)) = t_start (snd (exec M cfg cs s))"
proof (induction cs arbitrary: s b)
  case Nil
  then show ?case by simp
next
  case (Cons c cs)
  from closed_call [OF Cons.prems] obtain b' where
    b': "window_closed b' cs"
    "b' \<longrightarrow> t (snd (call_op M cfg c s)) = t_start (snd (call_op M cfg c s))"
    by blast
  have "window_ok (snd (call_op M cfg c s))" by (rule window_ok_call [OF Cons.prems(1)])
  from Cons.IH [OF this b'(2) b'(1)] show ?case by (simp add: exec_Cons del: exec.simps(2))
qed

lemma open_call:
  assumes ok: "window_ok s" and h: "1 \<le> t_max cfg" and b: "\<not> b \<longrightarrow> t_start s < t s"
    and cl: "\<not> window_closed b (c # cs)"
  shows "\<exists>b'. \<not> window_closed b' cs \<and>
    (\<not> b' \<longrightarrow> t_start (snd (call_op M cfg c s)) < t (snd (call_op M cfg c s)))"
proof (cases c)
  case (ActAndTrain state reward rnd)
  with cl have c: "\<not> window_closed False cs" by simp
  have "t_start (snd (call_op M cfg (ActAndTrain state reward rnd) s))
      < t (snd (call_op M cfg (ActAndTrain state reward rnd) s))"
    using ok
  proof (cases rule: call_act_and_train_window [where cfg = cfg and M = M and state = state
        and reward = reward and rnd = rnd])
    case (plain a)
    then show ?thesis using ok by (simp add: record_entry_simps store_reward_simps window_ok_def)
  next
    case (updated a rep s2)
    then show ?thesis using update_counters [OF updated(3)]
      by (simp add: record_entry_simps)
  next
    case raised
    then show ?thesis using h by simp
  qed
  with c ActAndTrain show ?thesis by blast
next
  case (Act obs rnd)
  with cl b show ?thesis by (auto simp: call_act act_counters)
next
  case (StopEpisodeAndTrain state reward dn)
  with cl have "\<not> window_closed True cs" by simp
  then show ?thesis by blast
next
  case StopEpisode
  with cl b show ?thesis by (auto simp: call_stop_episode stop_episode_counters)
qed

lemma open_exec:
  "window_ok s \<Longrightarrow> 1 \<le> t_max cfg \<Longrightarrow> \<not> b \<longrightarrow> t_start s < t s \<Longrightarrow> \<not> window_closed b cs \<Longrightarrow>
   t_start (snd (exec M cfg cs s)) < t (snd (exec M cfg cs s))"
proof (induction cs arbitrary: s b)
  case Nil
  then show ?case by simp
next
  case (Cons c cs)
  from open_call [OF Cons.prems] obtain b' where
    b': "\<not> window_closed b' cs"
    "\<not> b' \<longrightarrow> t_start (snd (call_op M cfg c s)) < t (snd (call_op M cfg c s))"
    by blast
  have "window_ok (snd (call_op M cfg c s))" by (rule window_ok_call [OF Cons.prems(1)])
  from Cons.IH [OF this Cons.prems(2) b'(2) b'(1)] show ?case
    by (simp add: exec_Cons del: exec.simps(2))
qed

lemma closed_iff:
  assumes "1 \<le> t_max cfg"
  shows "window_closed True cs
     = (t (snd (exec M cfg cs (init m))) = t_start (snd (exec M cfg cs (init m))))"
proof (cases "window_closed True cs")
  case True
  have "t (snd (exec M cfg cs (init m))) = t_start (snd (exec M cfg cs (init m)))"
    by (rule closed_exec [where b = True])
       (use True in \<open>simp_all add: window_ok_init\<close>, simp add: init_def)
  with True show ?thesis by simp
next
  case False
  have "t_start (snd (exec M cfg cs (init m))) < t (snd (exec M cfg cs (init m)))"
    by (rule open_exec [where b = True])
       (use assms False in \<open>simp_all add: window_ok_init\<close>)
  with False show ?thesis by simp
qed

subsection \<open>Calls that raise\<close>

text \<open>
  Claim C6, as the code has it. From a fresh agent with a horizon of at least 1, a call
  raises exactly when it is \<^verbatim>\<open>stop_episode_and_train\<close> and no \<^verbatim>\<open>act_and_train\<close> has been
  made since the construction or the last \<^verbatim>\<open>stop_episode_and_train\<close>, that is, when the
  window is empty; what it raises is the assertion of \<^verbatim>\<open>update\<close>. \<^verbatim>\<open>act_and_train\<close>,
  \<^verbatim>\<open>act\<close> and \<^verbatim>\<open>stop_episode\<close> never raise, and no call meets a missing key.
\<close>

theorem raise_only_on_closed_window:
  assumes "1 \<le> t_max cfg"
  shows "(fst (call_op M cfg c (snd (exec M cfg cs (init m)))) = Raised e) =
         (e = AssertionError \<and> (\<exists>state reward dn. c = StopEpisodeAndTrain state reward dn) \<and>
          window_closed True cs) \<and>
         window_closed True cs =
           (t (snd (exec M cfg cs (init m))) = t_start (snd (exec M cfg cs (init m))))"
proof -
  let ?s = "snd (exec M cfg cs (init m))"
  have ok: "window_ok ?s" by (rule window_ok_exec [OF window_ok_init])
  have cl: "window_closed True cs = (t ?s = t_start ?s)" by (rule closed_iff [OF assms])
  have "(fst (call_op M cfg c ?s) = Raised e) =
         (e = AssertionError \<and> (\<exists>state reward dn. c = StopEpisodeAndTrain state reward dn) \<and>
          t ?s = t_start ?s)"
  proof (cases c)
    case (ActAndTrain state reward rnd)
    show ?thesis unfolding ActAndTrain
      by (cases rule: call_act_and_train_window [OF ok, of cfg M state reward rnd])
         (use assms in auto)
  next
    case (Act obs rnd)
    then show ?thesis by (simp add: call_act)
  next
    case (StopEpisodeAndTrain state reward dn)
    show ?thesis unfolding StopEpisodeAndTrain
      by (cases rule: call_stop_train_window [OF ok, of M cfg dn state reward]) auto
  next
    case StopEpisode
    then show ?thesis by (simp add: call_stop_episode)
  qed
  with cl show ?thesis by simp
qed

text \<open>
  Claim C6 as stated fails: \<^verbatim>\<open>stop_episode_and_train\<close> as the first call on a fresh agent
  enters \<^verbatim>\<open>update\<close> with \<open>t_start = t\<close> and raises its assertion.
\<close>

theorem empty_window_counterexample:
  "fst (exec const_model scenario_cfg [StopEpisodeAndTrain () 1 True] (init ()))
     = [Raised AssertionError] \<and>
   t (init () :: (unit, unit) a3c) = t_start (init () :: (unit, unit) a3c)"
  by (simp add: concrete_defs)

text \<open>\<^verbatim>\<open>stop_episode_and_train\<close> on a fresh agent, and after one step.\<close>

theorem raise_only_on_closed_window_witness:
  "1 \<le> t_max scenario_cfg \<and>
   fst (call_op const_model scenario_cfg (StopEpisodeAndTrain () 1 True)
          (snd (exec const_model scenario_cfg [] (init ())))) = Raised AssertionError \<and>
   window_closed True ([] :: unit call list) \<and>
   fst (call_op const_model scenario_cfg (StopEpisodeAndTrain () 1 True)
          (snd (exec const_model scenario_cfg [ActAndTrain () 0 0] (init ()))))
     \<noteq> Raised AssertionError \<and>
   \<not> window_closed True [ActAndTrain () 0 0]"
proof -
  have h: "1 \<le> t_max scenario_cfg" by (simp add: scenario_cfg_def)
  have w: "window_closed True ([] :: unit call list)" "\<not> window_closed True [ActAndTrain () 0 0]"
    by simp_all
  from raise_only_on_closed_window [OF h, of const_model "StopEpisodeAndTrain () 1 True"
      "[]" "()" AssertionError] w(1)
  have c1: "fst (call_op const_model scenario_cfg (StopEpisodeAndTrain () 1 True)
          (snd (exec const_model scenario_cfg [] (init ())))) = Raised AssertionError"
    by blast
  from raise_only_on_closed_window [OF h, of const_model "StopEpisodeAndTrain () 1 True"
      "[ActAndTrain () 0 0]" "()" AssertionError] w(2)
  have c2: "fst (call_op const_model scenario_cfg (StopEpisodeAndTrain () 1 True)
          (snd (exec const_model scenario_cfg [ActAndTrain () 0 0] (init ()))))
     \<noteq> Raised AssertionError"
    by blast
  show ?thesis using h w c1 c2 by blast
qed

lemma exec_scenario:
  "fst (exec const_model scenario_cfg scenario_calls (init ()))
     = [Acted 0 None, Acted 0 None, Acted 0 None, Stopped (Some scenario_report)]"
  by (simp add: concrete_defs scenario_calls_def scenario_report_def)

lemma exec_scenario_horizon:
  "fst (exec const_model scenario_cfg scenario_calls_horizon (init ()))
     = [Acted 0 None, Acted 0 None, Acted 0 None, Acted 0 (Some scenario_report), Stopped None]"
  by (simp add: concrete_defs scenario_calls_horizon_def scenario_report_def)

lemma bounded_reachable:
  assumes "0 \<le> t_max cfg"
  shows "t_start (snd (exec M cfg cs (init m))) \<le> t (snd (exec M cfg cs (init m))) \<and>
         t (snd (exec M cfg cs (init m))) - t_start (snd (exec M cfg cs (init m))) \<le> t_max cfg"
proof -
  have "window_ok (snd (exec M cfg cs (init m)))" by (rule window_ok_exec [OF window_ok_init])
  moreover have "t (snd (exec M cfg cs (init m))) - t_start (snd (exec M cfg cs (init m)))
      \<le> t_max cfg"
    by (rule bounded_exec) (use assms in \<open>simp_all add: window_ok_init\<close>, simp add: init_def)
  ultimately show ?thesis by (simp add: window_ok_def)
qed

subsection \<open>The update at the horizon\<close>

lemma update_model:
  assumes "update M cfg statevar s = Inr (rep, s')"
  shows "model s' = backward_and_update M (model s) rep"
proof -
  from assms obtain s1 R pl vl where
    lp: "update_loop cfg (rev [t_start s..t s - 1]) s (bootstrap rep) 0 0
         = Inr (s1, R, pl, vl, steps rep)" and
    s': "s' = s1\<lparr>model := backward_and_update M (model s1) rep,
          past_action_log_prob := Map.empty, past_action_entropy := Map.empty,
          past_states := Map.empty, past_rewards := Map.empty, past_values := Map.empty,
          t_start := t s1\<rparr>"
    by (rule update_Inr)
  have "model s1 = model s"
    using update_loop_frame [OF lp] by (metis a3c.select_convs(1) a3c.surjective a3c.update_convs(9))
  with s' show ?thesis by simp
qed

lemma record_entry_model:
  "model (snd (record_entry M statevar rnd s)) = snd (pi_and_v M (model s) statevar)"
  by (simp add: record_entry_def Let_def split: prod.splits)

lemma exec_counting_scenario:
  "fst (exec counting_model scenario_cfg scenario_calls (init 0))
     = [Acted 0 None, Acted 0 None, Acted 0 None, Stopped (Some scenario_report)]"
  by (simp add: concrete_defs counting_model_def scenario_calls_def scenario_report_def)

lemma exec_counting_scenario_horizon:
  "fst (exec counting_model scenario_cfg scenario_calls_horizon (init 0))
     = [Acted 0 None, Acted 0 None, Acted 0 None, Acted 0 (Some scenario_report), Stopped None]"
  by (simp add: concrete_defs counting_model_def scenario_calls_horizon_def scenario_report_def)

lemma models_counting_scenario:
  "models_after counting_model scenario_cfg scenario_calls (init 0) = [0, 0, 0, 1]"
  by (simp add: concrete_defs counting_model_def scenario_calls_def)

lemma models_counting_scenario_horizon:
  "models_after counting_model scenario_cfg scenario_calls_horizon (init 0) = [0, 0, 0, 1, 1]"
  by (simp add: concrete_defs counting_model_def scenario_calls_horizon_def)

text \<open>
  Claim C5 as stated fails for a negative horizon: with a horizon of -1 no window
  length equals it, no update is ever made, and after one call of \<^verbatim>\<open>act_and_train\<close> the
  window has length 1.
\<close>

theorem horizon_bound_counterexample:
  "t_max negative_horizon_cfg = - 1 \<and>
   t (snd (exec const_model negative_horizon_cfg [ActAndTrain () 0 0] (init ())))
     - t_start (snd (exec const_model negative_horizon_cfg [ActAndTrain () 0 0] (init ()))) = 1 \<and>
   \<not> t (snd (exec const_model negative_horizon_cfg [ActAndTrain () 0 0] (init ())))
       - t_start (snd (exec const_model negative_horizon_cfg [ActAndTrain () 0 0] (init ())))
     \<le> t_max negative_horizon_cfg"
  by (simp add: concrete_defs negative_horizon_cfg_def)

text \<open>
  Claim C5, for a horizon of 0 or more. Let \<open>s\<close> be an agent reached from a fresh one by
  public calls. Its window is not longer than the horizon. A call of \<^verbatim>\<open>act_and_train\<close> on
  \<open>s\<close> enters \<^verbatim>\<open>update\<close> exactly when the window length equals the horizon; the update
  then succeeds, unless the horizon is 0, where it raises and leaves the agent with the
  reward stored and the model untouched. The update runs on the agent with the reward
  stored and no new entry, with the preprocessed observation as its bootstrap state,
  whose value estimate is the bootstrap value; it makes one gradient step, so the model
  it returns is \<open>backward_and_update\<close> of the model at entry, and the entry of the call is
  recorded on the agent the update returns, so that the new window holds that entry
  alone and the model of the call's result is that stepped model after its evaluation.
  Otherwise the entry joins the window and the model has made no gradient step. In the
  scenario of the specification, run on a model that counts its gradient steps, the
  count is 0 after each of the first three calls of \<^verbatim>\<open>act_and_train\<close> and 1 after the
  terminal step, or after a fourth \<^verbatim>\<open>act_and_train\<close>, and stays 1; the returns of that one
  update are 2.71, 1.9 and 1.
\<close>

theorem horizon_update:
  assumes h: "0 \<le> t_max cfg"
    and s: "s = snd (exec M cfg cs (init m))"
    and c: "call_op M cfg (ActAndTrain state reward rnd) s = (ev, s')"
  shows "t_start s \<le> t s \<and> t s - t_start s \<le> t_max cfg \<and>
    (t s - t_start s = t_max cfg) = (made_report ev \<noteq> None \<or> ev = Raised AssertionError) \<and>
    (ev = Raised AssertionError) = (t_max cfg = 0) \<and>
    (ev = Raised AssertionError \<longrightarrow> s' = store_reward cfg reward s \<and> model s' = model s) \<and>
    (\<forall>rep. made_report ev = Some rep \<longrightarrow>
       (\<exists>s2. update M cfg (Some (phi cfg state)) (store_reward cfg reward s) = Inr (rep, s2) \<and>
             model s2 = backward_and_update M (model s) rep \<and>
             s' = snd (record_entry M (phi cfg state) rnd s2)) \<and>
       bootstrap rep = snd (fst (pi_and_v M (model s) (phi cfg state))) \<and>
       model s' = snd (pi_and_v M (backward_and_update M (model s) rep) (phi cfg state)) \<and>
       t_start s' = t s \<and> t s' = t s + 1 \<and> past_states s' = [t s \<mapsto> phi cfg state]) \<and>
    (made_report ev = None \<and> ev \<noteq> Raised AssertionError \<longrightarrow>
       s' = snd (record_entry M (phi cfg state) rnd (store_reward cfg reward s)) \<and>
       model s' = snd (pi_and_v M (model s) (phi cfg state)) \<and>
       t_start s' = t_start s \<and> t s' = t s + 1) \<and>
    fst (exec const_model scenario_cfg scenario_calls (init ()))
      = [Acted 0 None, Acted 0 None, Acted 0 None, Stopped (Some scenario_report)] \<and>
    fst (exec const_model scenario_cfg scenario_calls_horizon (init ()))
      = [Acted 0 None, Acted 0 None, Acted 0 None, Acted 0 (Some scenario_report), Stopped None] \<and>
    fst (exec counting_model scenario_cfg scenario_calls (init 0))
      = [Acted 0 None, Acted 0 None, Acted 0 None, Stopped (Some scenario_report)] \<and>
    models_after counting_model scenario_cfg scenario_calls (init 0) = [0, 0, 0, 1] \<and>
    fst (exec counting_model scenario_cfg scenario_calls_horizon (init 0))
      = [Acted 0 None, Acted 0 None, Acted 0 None, Acted 0 (Some scenario_report), Stopped None] \<and>
    models_after counting_model scenario_cfg scenario_calls_horizon (init 0) = [0, 0, 0, 1, 1] \<and>
    map ret (rev (steps scenario_report)) = [1 + 9 / 10 + 81 / 100, 1 + 9 / 10, 1]"
proof -
  have ok: "window_ok s" unfolding s by (rule window_ok_exec [OF window_ok_init])
  have bd: "t_start s \<le> t s" "t s - t_start s \<le> t_max cfg"
    using bounded_reachable [OF h, of M cs m] s by simp_all
  have dyn: "(t s - t_start s = t_max cfg) = (made_report ev \<noteq> None \<or> ev = Raised AssertionError) \<and>
    (ev = Raised AssertionError) = (t_max cfg = 0) \<and>
    (ev = Raised AssertionError \<longrightarrow> s' = store_reward cfg reward s \<and> model s' = model s) \<and>
    (\<forall>rep. made_report ev = Some rep \<longrightarrow>
       (\<exists>s2. update M cfg (Some (phi cfg state)) (store_reward cfg reward s) = Inr (rep, s2) \<and>
             model s2 = backward_and_update M (model s) rep \<and>
             s' = snd (record_entry M (phi cfg state) rnd s2)) \<and>
       bootstrap rep = snd (fst (pi_and_v M (model s) (phi cfg state))) \<and>
       model s' = snd (pi_and_v M (backward_and_update M (model s) rep) (phi cfg state)) \<and>
       t_start s' = t s \<and> t s' = t s + 1 \<and> past_states s' = [t s \<mapsto> phi cfg state]) \<and>
    (made_report ev = None \<and> ev \<noteq> Raised AssertionError \<longrightarrow>
       s' = snd (record_entry M (phi cfg state) rnd (store_reward cfg reward s)) \<and>
       model s' = snd (pi_and_v M (model s) (phi cfg state)) \<and>
       t_start s' = t_start s \<and> t s' = t s + 1)"
    using ok
  proof (cases rule: call_act_and_train_window [where cfg = cfg and M = M and state = state
        and reward = reward and rnd = rnd])
    case (plain a)
    with c have ev: "ev = Acted a None"
      "s' = snd (record_entry M (phi cfg state) rnd (store_reward cfg reward s))" by simp_all
    have "t_max cfg \<noteq> 0" using plain(1) bd by auto
    with ev plain(1) show ?thesis
      by (simp add: made_report_def record_entry_simps record_entry_model store_reward_simps)
  next
    case (updated a rep s2)
    with c have ev: "ev = Acted a (Some rep)"
      "s' = snd (record_entry M (phi cfg state) rnd s2)" by simp_all
    from updated(3) obtain s1 R pl vl where
      bs: "bootstrap rep = (case Some (phi cfg state) of None \<Rightarrow> 0
             | Some sv \<Rightarrow> snd (fst (pi_and_v M (model (store_reward cfg reward s)) sv)))"
      by (rule update_Inr)
    have dr: "past_states s2 = Map.empty" using window_drained [OF updated(3)] by simp
    have md: "model s2 = backward_and_update M (model s) rep"
      using update_model [OF updated(3)] by (simp add: store_reward_simps)
    have "t_max cfg \<noteq> 0" using updated(1,2) by auto
    with ev updated(1,3) update_counters [OF updated(3)] bs dr md show ?thesis
      by (simp add: made_report_def record_entry_simps record_entry_model store_reward_simps)
  next
    case raised
    with c have ev: "ev = Raised AssertionError" "s' = store_reward cfg reward s" by simp_all
    from raised(1,2) have "t_max cfg = 0" by simp
    with ev raised(1) show ?thesis by (simp add: made_report_def store_reward_simps)
  qed
  have "map ret (rev (steps scenario_report)) = [1 + 9 / 10 + 81 / 100, 1 + 9 / 10, 1]"
    by (simp add: scenario_report_def)
  with bd dyn exec_scenario exec_scenario_horizon exec_counting_scenario
    exec_counting_scenario_horizon models_counting_scenario models_counting_scenario_horizon
  show ?thesis by blast
qed

subsection \<open>Rewards below the window\<close>

lemma agree_refl: "agree_in_window s s"
  by (simp add: agree_in_window_def)

lemma update_step_rewards:
  assumes "pr i = past_rewards s i"
  shows "update_step cfg i (s\<lparr>past_rewards := pr\<rparr>) R pl vl =
     (case update_step cfg i s R pl vl of
        Inl (e, a) \<Rightarrow> Inl (e, a\<lparr>past_rewards := pr\<rparr>)
      | Inr (a, x) \<Rightarrow> Inr (a\<lparr>past_rewards := pr\<rparr>, x))"
  using assms unfolding update_step_def
  by (auto simp: Let_def split: option.splits)

lemma update_loop_rewards:
  assumes "\<forall>i\<in>set is. pr i = past_rewards s i"
  shows "update_loop cfg is (s\<lparr>past_rewards := pr\<rparr>) R pl vl =
     (case update_loop cfg is s R pl vl of
        Inl (e, a) \<Rightarrow> Inl (e, a\<lparr>past_rewards := pr\<rparr>)
      | Inr (a, x) \<Rightarrow> Inr (a\<lparr>past_rewards := pr\<rparr>, x))"
  using assms
proof (induction "is" arbitrary: s R pl vl)
  case Nil
  then show ?case by simp
next
  case (Cons i "is")
  have st: "update_step cfg i (s\<lparr>past_rewards := pr\<rparr>) R pl vl =
     (case update_step cfg i s R pl vl of
        Inl (e, a) \<Rightarrow> Inl (e, a\<lparr>past_rewards := pr\<rparr>)
      | Inr (a, x) \<Rightarrow> Inr (a\<lparr>past_rewards := pr\<rparr>, x))"
    using Cons.prems by (intro update_step_rewards) simp
  show ?case
  proof (cases "update_step cfg i s R pl vl")
    case (Inl a)
    with st show ?thesis by (simp split: prod.splits)
  next
    case (Inr b)
    obtain s1 R1 pl1 vl1 en where b: "b = (s1, R1, pl1, vl1, en)" by (cases b)
    from update_step_Inr(8) [OF Inr [unfolded b]] have "past_rewards s1 = past_rewards s"
      by simp
    with Cons.prems have "\<forall>i\<in>set is. pr i = past_rewards s1 i" by simp
    from Cons.IH [OF this] st Inr b show ?thesis
      by (simp split: sum.splits prod.splits)
  qed
qed

lemma scale_losses_rewards:
  "scale_losses cfg (s\<lparr>past_rewards := pr\<rparr>) losses = scale_losses cfg s losses"
  by (simp add: scale_losses_def Let_def split: prod.splits)

lemma update_rewards:
  assumes "\<forall>i. t_start s \<le> i \<longrightarrow> pr i = past_rewards s i"
  shows "update M cfg statevar (s\<lparr>past_rewards := pr\<rparr>) =
     (case update M cfg statevar s of
        Inl (e, a) \<Rightarrow> Inl (e, a\<lparr>past_rewards := pr\<rparr>)
      | Inr x \<Rightarrow> Inr x)"
proof (cases "t_start s < t s")
  case False
  then show ?thesis by (simp add: update_def)
next
  case True
  define R0 where
    "R0 = (case statevar of None \<Rightarrow> 0 | Some sv \<Rightarrow> snd (fst (pi_and_v M (model s) sv)))"
  have R0': "(case statevar of None \<Rightarrow> 0
      | Some sv \<Rightarrow> snd (fst (pi_and_v M (model (s\<lparr>past_rewards := pr\<rparr>)) sv))) = R0"
    by (simp add: R0_def split: option.splits)
  have "\<forall>i\<in>set (rev [t_start s..t s - 1]). pr i = past_rewards s i"
    using assms by simp
  note lp = update_loop_rewards [OF this, of cfg R0 0 0]
  show ?thesis
  proof (cases "update_loop cfg (rev [t_start s..t s - 1]) s R0 0 0")
    case (Inl b)
    obtain e a where b: "b = (e, a)" by (cases b)
    have "update M cfg statevar s = Inl (e, a)"
      using True Inl b by (simp add: update_def Let_def R0_def [symmetric])
    moreover have "update M cfg statevar (s\<lparr>past_rewards := pr\<rparr>)
        = Inl (e, a\<lparr>past_rewards := pr\<rparr>)"
      using True lp Inl b by (simp add: update_def Let_def R0')
    ultimately show ?thesis by simp
  next
    case (Inr b)
    obtain s1 R pl vl lg where b: "b = (s1, R, pl, vl, lg)" by (cases b)
    obtain pl' vl' where sc: "scale_losses cfg s1 (pl, vl) = (pl', vl')"
      by (cases "scale_losses cfg s1 (pl, vl)")
    have "update M cfg statevar s =
        Inr (\<lparr>bootstrap = R0, steps = lg, pi_loss = pl', v_loss = vl'\<rparr>,
             s1\<lparr>model := backward_and_update M (model s1)
                         \<lparr>bootstrap = R0, steps = lg, pi_loss = pl', v_loss = vl'\<rparr>,
                past_action_log_prob := Map.empty, past_action_entropy := Map.empty,
                past_states := Map.empty, past_rewards := Map.empty, past_values := Map.empty,
                t_start := t s1\<rparr>)"
      using True Inr b sc by (simp add: update_def Let_def R0_def [symmetric])
    moreover have "update M cfg statevar (s\<lparr>past_rewards := pr\<rparr>) =
        Inr (\<lparr>bootstrap = R0, steps = lg, pi_loss = pl', v_loss = vl'\<rparr>,
             s1\<lparr>model := backward_and_update M (model s1)
                         \<lparr>bootstrap = R0, steps = lg, pi_loss = pl', v_loss = vl'\<rparr>,
                past_action_log_prob := Map.empty, past_action_entropy := Map.empty,
                past_states := Map.empty, past_rewards := Map.empty, past_values := Map.empty,
                t_start := t s1\<rparr>)"
      using True lp Inr b sc by (simp add: update_def Let_def R0' scale_losses_rewards)
    ultimately show ?thesis by simp
  qed
qed

lemma update_agree:
  assumes ag: "agree_in_window s s'"
  shows "case update M cfg statevar s of
           Inl (e, a) \<Rightarrow> \<exists>a'. update M cfg statevar s' = Inl (e, a') \<and> agree_in_window a a'
         | Inr x \<Rightarrow> update M cfg statevar s' = Inr x"
proof -
  from ag have s': "s' = s\<lparr>past_rewards := past_rewards s'\<rparr>"
    and pr: "\<forall>i. t_start s \<le> i \<longrightarrow> past_rewards s' i = past_rewards s i"
    by (simp_all add: agree_in_window_def)
  have u: "update M cfg statevar s' =
     (case update M cfg statevar s of
        Inl (e, a) \<Rightarrow> Inl (e, a\<lparr>past_rewards := past_rewards s'\<rparr>)
      | Inr x \<Rightarrow> Inr x)"
    using update_rewards [OF pr, of M cfg statevar] s' by simp
  show ?thesis
  proof (cases "update M cfg statevar s")
    case (Inl b)
    obtain e a where b: "b = (e, a)" by (cases b)
    from update_Inl [OF Inl [unfolded b]] have fr: "a = s\<lparr>average_reward := average_reward a\<rparr>"
      by auto
    then have "past_rewards a = past_rewards s" "t_start a = t_start s"
      by (metis a3c.select_convs(7) a3c.surjective a3c.update_convs(9),
          metis a3c.select_convs(3) a3c.surjective a3c.update_convs(9))
    with pr have "agree_in_window a (a\<lparr>past_rewards := past_rewards s'\<rparr>)"
      by (simp add: agree_in_window_def)
    with u Inl b show ?thesis by simp
  next
    case (Inr x)
    with u show ?thesis by simp
  qed
qed

lemma store_agree:
  assumes ag: "agree_in_window s s'" and r: "r = r' \<or> t s \<le> t_start s"
  shows "agree_in_window (store_reward cfg r s) (store_reward cfg r' s')"
proof -
  from ag have s': "s' = s\<lparr>past_rewards := past_rewards s'\<rparr>"
    and pr: "\<forall>i. t_start s \<le> i \<longrightarrow> past_rewards s' i = past_rewards s i"
    by (simp_all add: agree_in_window_def)
  from s' have ts: "t s' = t s" by (metis a3c.select_convs(2) a3c.surjective a3c.update_convs(7))
  have eq: "store_reward cfg r' s' =
      (store_reward cfg r s)\<lparr>past_rewards := past_rewards (store_reward cfg r' s')\<rparr>"
    by (subst (1 2) s') (simp add: store_reward_def Let_def)
  have "past_rewards (store_reward cfg r' s') i = past_rewards (store_reward cfg r s) i"
    if "t_start s \<le> i" for i
    using that pr r ts by (auto simp: store_reward_simps)
  with eq show ?thesis by (simp add: agree_in_window_def store_reward_simps)
qed

lemma record_agree:
  assumes ag: "agree_in_window s s'"
  shows "fst (record_entry M statevar rnd s') = fst (record_entry M statevar rnd s) \<and>
         agree_in_window (snd (record_entry M statevar rnd s)) (snd (record_entry M statevar rnd s'))"
proof -
  from ag have s': "s' = s\<lparr>past_rewards := past_rewards s'\<rparr>"
    and pr: "\<forall>i. t_start s \<le> i \<longrightarrow> past_rewards s' i = past_rewards s i"
    by (simp_all add: agree_in_window_def)
  have "record_entry M statevar rnd (s\<lparr>past_rewards := pr'\<rparr>) =
      (fst (record_entry M statevar rnd s),
       (snd (record_entry M statevar rnd s))\<lparr>past_rewards := pr'\<rparr>)" for pr'
    by (simp add: record_entry_def Let_def split: prod.splits)
  from this [of "past_rewards s'"] s' have
    "record_entry M statevar rnd s' =
      (fst (record_entry M statevar rnd s),
       (snd (record_entry M statevar rnd s))\<lparr>past_rewards := past_rewards s'\<rparr>)"
    by simp
  with pr show ?thesis by (simp add: agree_in_window_def record_entry_simps)
qed

lemma stop_episode_agree:
  assumes ag: "agree_in_window s s'"
  shows "agree_in_window (stop_episode M s) (stop_episode M s')"
proof -
  from ag have s': "s' = s\<lparr>past_rewards := past_rewards s'\<rparr>"
    and pr: "\<forall>i. t_start s \<le> i \<longrightarrow> past_rewards s' i = past_rewards s i"
    by (simp_all add: agree_in_window_def)
  have "stop_episode M (s\<lparr>past_rewards := pr'\<rparr>) = (stop_episode M s)\<lparr>past_rewards := pr'\<rparr>" for pr'
    by (simp add: stop_episode_def)
  from this [of "past_rewards s'"] s' have
    "stop_episode M s' = (stop_episode M s)\<lparr>past_rewards := past_rewards s'\<rparr>" by simp
  with pr show ?thesis by (simp add: agree_in_window_def stop_episode_def)
qed

lemma act_agree:
  assumes ag: "agree_in_window s s'"
  shows "fst (act M cfg obs rnd s') = fst (act M cfg obs rnd s) \<and>
         agree_in_window (snd (act M cfg obs rnd s)) (snd (act M cfg obs rnd s'))"
proof -
  from ag have s': "s' = s\<lparr>past_rewards := past_rewards s'\<rparr>"
    and pr: "\<forall>i. t_start s \<le> i \<longrightarrow> past_rewards s' i = past_rewards s i"
    by (simp_all add: agree_in_window_def)
  have "act M cfg obs rnd (s\<lparr>past_rewards := pr'\<rparr>) =
      (fst (act M cfg obs rnd s), (snd (act M cfg obs rnd s))\<lparr>past_rewards := pr'\<rparr>)" for pr'
    by (simp add: act_def Let_def split: prod.splits)
  from this [of "past_rewards s'"] s' have
    "act M cfg obs rnd s' =
      (fst (act M cfg obs rnd s), (snd (act M cfg obs rnd s))\<lparr>past_rewards := past_rewards s'\<rparr>)"
    by simp
  with pr show ?thesis by (simp add: agree_in_window_def act_frame)
qed

lemma agree_counters:
  assumes "agree_in_window s s'"
  shows "t s' = t s" "t_start s' = t_start s" "average_reward s' = average_reward s"
    "model s' = model s"
proof -
  from assms have s': "s' = s\<lparr>past_rewards := past_rewards s'\<rparr>"
    by (simp add: agree_in_window_def)
  show "t s' = t s" by (subst s') simp
  show "t_start s' = t_start s" by (subst s') simp
  show "average_reward s' = average_reward s" by (subst s') simp
  show "model s' = model s" by (subst s') simp
qed

lemma act_and_train_agree:
  fixes M :: "('o, 'a, 'm) collaborators"
  assumes ag: "agree_in_window s s'" and r: "r = r' \<or> t s \<le> t_start s"
  shows "fst (call_op M cfg (ActAndTrain state r' rnd) s')
           = fst (call_op M cfg (ActAndTrain state r rnd) s) \<and>
         agree_in_window (snd (call_op M cfg (ActAndTrain state r rnd) s))
           (snd (call_op M cfg (ActAndTrain state r' rnd) s'))"
proof -
  let ?s1 = "store_reward cfg r s" and ?s1' = "store_reward cfg r' s'"
  have ag1: "agree_in_window ?s1 ?s1'" by (rule store_agree [OF ag r])
  note cnt = agree_counters [OF ag]
  show ?thesis
  proof (cases rule: act_and_train_cases [of s cfg M state r rnd])
    case (raised e a)
    from update_agree [OF ag1, of M cfg "Some (phi cfg state)"] raised(2)
    obtain a' where a': "update M cfg (Some (phi cfg state)) ?s1' = Inl (e, a')"
      "agree_in_window a a'" by auto
    have "act_and_train M cfg state r' rnd s' = Inl (e, a')"
      by (cases rule: act_and_train_cases [of s' cfg M state r' rnd])
         (use a' raised(1) cnt in auto)
    with raised(3) a'(2) show ?thesis by (simp add: call_op_def)
  next
    case (updated rep s2)
    from update_agree [OF ag1, of M cfg "Some (phi cfg state)"] updated(2)
    have u': "update M cfg (Some (phi cfg state)) ?s1' = Inr (rep, s2)" by simp
    have "act_and_train M cfg state r' rnd s' =
         Inr ((fst (record_entry M (phi cfg state) rnd s2), Some rep),
              snd (record_entry M (phi cfg state) rnd s2))"
      by (cases rule: act_and_train_cases [of s' cfg M state r' rnd])
         (use u' updated(1) cnt in auto)
    with updated(3) show ?thesis by (simp add: call_op_def agree_refl)
  next
    case plain
    have "act_and_train M cfg state r' rnd s' =
         Inr ((fst (record_entry M (phi cfg state) rnd ?s1'), None),
              snd (record_entry M (phi cfg state) rnd ?s1'))"
      by (cases rule: act_and_train_cases [of s' cfg M state r' rnd])
         (use plain(1) cnt in auto)
    with plain(2) record_agree [OF ag1, of M "phi cfg state" rnd] show ?thesis
      by (simp add: call_op_def)
  qed
qed

lemma stop_train_agree:
  fixes M :: "('o, 'a, 'm) collaborators"
  assumes ag: "agree_in_window s s'"
  shows "(fst (call_op M cfg (StopEpisodeAndTrain state r dn) s') :: 'a event)
           = fst (call_op M cfg (StopEpisodeAndTrain state r dn) s) \<and>
         agree_in_window (snd (call_op M cfg (StopEpisodeAndTrain state r dn) s))
           (snd (call_op M cfg (StopEpisodeAndTrain state r dn) s'))"
proof -
  let ?s1 = "store_reward cfg r s" and ?s1' = "store_reward cfg r s'"
  let ?sv = "if dn then None else Some (phi cfg state)"
  have ag1: "agree_in_window ?s1 ?s1'" by (rule store_agree [OF ag]) simp
  show ?thesis
  proof (cases rule: stop_episode_and_train_cases [of M cfg dn state r s])
    case (raised e a)
    from update_agree [OF ag1, of M cfg ?sv] raised(1)
    obtain a' where a': "update M cfg ?sv ?s1' = Inl (e, a')" "agree_in_window a a'" by auto
    have "stop_episode_and_train M cfg state r dn s' = Inl (e, a')"
      by (cases rule: stop_episode_and_train_cases [of M cfg dn state r s'])
         (use a' in auto)
    with raised(2) a'(2) show ?thesis by (simp add: call_op_def)
  next
    case (updated rep s2)
    from update_agree [OF ag1, of M cfg ?sv] updated(1)
    have u': "update M cfg ?sv ?s1' = Inr (rep, s2)" by simp
    have "stop_episode_and_train M cfg state r dn s' = Inr (rep, stop_episode M s2)"
      by (cases rule: stop_episode_and_train_cases [of M cfg dn state r s'])
         (use u' in auto)
    with updated(2) show ?thesis by (simp add: call_op_def agree_refl)
  qed
qed

lemma call_agree:
  assumes ag: "agree_in_window s s'"
  shows "fst (call_op M cfg c s') = fst (call_op M cfg c s) \<and>
         agree_in_window (snd (call_op M cfg c s)) (snd (call_op M cfg c s'))"
proof (cases c)
  case (ActAndTrain state r rnd)
  then show ?thesis using act_and_train_agree [OF ag, of r r M cfg state rnd] by simp
next
  case (Act obs rnd)
  then show ?thesis using act_agree [OF ag, of M cfg obs rnd] by (simp add: call_act)
next
  case (StopEpisodeAndTrain state r dn)
  then show ?thesis using stop_train_agree [OF ag, of M cfg state r dn] by simp
next
  case StopEpisode
  then show ?thesis using stop_episode_agree [OF ag, of M] by (simp add: call_stop_episode)
qed

lemma exec_agree:
  "agree_in_window s s' \<Longrightarrow>
   fst (exec M cfg cs s') = fst (exec M cfg cs s) \<and>
   agree_in_window (snd (exec M cfg cs s)) (snd (exec M cfg cs s'))"
proof (induction cs arbitrary: s s')
  case Nil
  then show ?case by simp
next
  case (Cons c cs)
  from call_agree [OF Cons.prems, of M cfg c] Cons.IH
  show ?case by (simp add: exec_Cons del: exec.simps(2))
qed

text \<open>
  Claim C10. Let \<open>pre\<close> be calls on a fresh agent with no \<^verbatim>\<open>act_and_train\<close> since the
  construction or the last \<^verbatim>\<open>stop_episode_and_train\<close>, and \<open>s\<close> the agent they reach. Then
  \<open>t = t_start\<close> in \<open>s\<close>, so the next \<^verbatim>\<open>act_and_train\<close> stores its reward at index
  \<open>t_start - 1\<close>. Two runs that differ only in that reward return the same events for
  any further calls: the same actions and errors, and the same reports of every
  update (bootstrap, rewards read, returns, advantages, baselines, losses). The agents
  they reach have the same counters, baseline and model, and differ at most in rewards
  stored below \<open>t_start\<close>.
\<close>

theorem first_reward_unread:
  assumes cl: "window_closed True pre"
    and s: "s = snd (exec M cfg pre (init m))"
    and run1: "exec M cfg (pre @ ActAndTrain state r1 rnd # cs) (init m) = (evs1, a1)"
    and run2: "exec M cfg (pre @ ActAndTrain state r2 rnd # cs) (init m) = (evs2, a2)"
  shows "t s = t_start s \<and>
    past_rewards (store_reward cfg r1 s) (t_start s - 1)
      = Some (if clip_reward cfg then np_clip r1 (- 1) 1 else r1) \<and>
    evs2 = evs1 \<and>
    t a2 = t a1 \<and> t_start a2 = t_start a1 \<and> average_reward a2 = average_reward a1 \<and>
    model a2 = model a1 \<and> agree_in_window a1 a2"
proof -
  have ok: "window_ok s" unfolding s by (rule window_ok_exec [OF window_ok_init])
  have closed: "t s = t_start s" unfolding s
    by (rule closed_exec [where b = True])
       (use cl in \<open>simp_all add: window_ok_init\<close>, simp add: init_def)
  then have st: "past_rewards (store_reward cfg r1 s) (t_start s - 1)
      = Some (if clip_reward cfg then np_clip r1 (- 1) 1 else r1)"
    by (simp add: store_reward_simps)
  let ?c1 = "call_op M cfg (ActAndTrain state r1 rnd) s"
  let ?c2 = "call_op M cfg (ActAndTrain state r2 rnd) s"
  from closed have "r1 = r2 \<or> t s \<le> t_start s" by simp
  from act_and_train_agree [OF agree_refl this, of M cfg state rnd]
  have first: "fst ?c2 = fst ?c1" "agree_in_window (snd ?c1) (snd ?c2)" by simp_all
  from exec_agree [OF first(2), of M cfg cs]
  have rest: "fst (exec M cfg cs (snd ?c2)) = fst (exec M cfg cs (snd ?c1))"
    "agree_in_window (snd (exec M cfg cs (snd ?c1))) (snd (exec M cfg cs (snd ?c2)))"
    by simp_all
  from run1 have e1: "evs1 = fst (exec M cfg pre (init m)) @ fst ?c1 # fst (exec M cfg cs (snd ?c1))"
    "a1 = snd (exec M cfg cs (snd ?c1))"
    by (simp_all add: exec_append exec_Cons s del: exec.simps(2))
  from run2 have e2: "evs2 = fst (exec M cfg pre (init m)) @ fst ?c2 # fst (exec M cfg cs (snd ?c2))"
    "a2 = snd (exec M cfg cs (snd ?c2))"
    by (simp_all add: exec_append exec_Cons s del: exec.simps(2))
  have ag: "agree_in_window a1 a2" using rest(2) e1(2) e2(2) by simp
  have "evs2 = evs1" using e1(1) e2(1) first(1) rest(1) by simp
  with closed st ag agree_counters [OF ag] show ?thesis by simp
qed

subsection \<open>The horizon and the first reward on concrete runs\<close>

lemma upto_0_0: "[0..0::int] = [0]"
  by (simp add: upto.simps)

lemma upto_1_2: "[1..2::int] = [1, 2]"
  by (simp add: upto.simps)

lemma call_next_window:
  "call_op const_model scenario_cfg (ActAndTrain () 5 0) clipped_window
     = (Acted 0 (Some clipped_report), next_window)"
  by (simp add: concrete_defs clipped_window_def clipped_report_def next_window_def)

lemma call_first_window:
  "call_op const_model scenario_cfg (ActAndTrain () 0 0) (init ()) = (Acted 0 None, first_window)"
  by (simp add: concrete_defs first_window_def)

lemma exec_episode:
  "exec const_model scenario_cfg
     ([ActAndTrain () 0 0, StopEpisodeAndTrain () 1 True]
        @ ActAndTrain () r 0 # [ActAndTrain () 1 0, StopEpisodeAndTrain () 1 True]) (init ())
     = (episode_events, drained)"
  by (simp add: concrete_defs upto_0_0 upto_1_2 episode_events_def drained_def)

lemma exec_open:
  "exec const_model scenario_cfg
     ([ActAndTrain () 0 0, StopEpisodeAndTrain () 1 True] @ ActAndTrain () r 0 # []) (init ())
     = (open_events, open_window (np_clip r (- 1) 1))"
  by (simp add: concrete_defs upto_0_0 open_events_def open_window_def)

lemma exec_counted_window:
  "snd (exec counting_model scenario_cfg
          [ActAndTrain () 0 0, ActAndTrain () (- 5) 0, ActAndTrain () (1 / 2) 0] (init 0))
     = counted_window"
  by (simp add: concrete_defs counting_model_def counted_window_def)

lemma call_counted_next:
  "call_op counting_model scenario_cfg (ActAndTrain () 5 0) counted_window
     = (Acted 0 (Some clipped_report), counted_next)"
  by (simp add: concrete_defs counting_model_def counted_window_def clipped_report_def
       counted_next_def)

lemma call_counted_first:
  "call_op counting_model scenario_cfg (ActAndTrain () 0 0) (init 0) = (Acted 0 None, counted_first)"
  by (simp add: concrete_defs counting_model_def counted_first_def)

text \<open>
  The call that finds the window at the horizon of 3, where the count of gradient steps
  goes from 0 to 1, and the first call on a fresh agent, where it stays 0.
\<close>

theorem horizon_update_witness:
  "0 \<le> t_max scenario_cfg \<and>
   counted_window = snd (exec counting_model scenario_cfg
      [ActAndTrain () 0 0, ActAndTrain () (- 5) 0, ActAndTrain () (1 / 2) 0] (init 0)) \<and>
   call_op counting_model scenario_cfg (ActAndTrain () 5 0) counted_window
     = (Acted 0 (Some clipped_report), counted_next) \<and>
   t counted_window - t_start counted_window = t_max scenario_cfg \<and>
   made_report (Acted 0 (Some clipped_report) :: nat event) = Some clipped_report \<and>
   bootstrap clipped_report
     = snd (fst (pi_and_v counting_model (model counted_window) (phi scenario_cfg ()))) \<and>
   model counted_next
     = snd (pi_and_v counting_model
              (backward_and_update counting_model (model counted_window) clipped_report)
              (phi scenario_cfg ())) \<and>
   model counted_window = 0 \<and> model counted_next = 1 \<and>
   t_start counted_next = t counted_window \<and> t counted_next = t counted_window + 1 \<and>
   past_states counted_next = [t counted_window \<mapsto> phi scenario_cfg ()] \<and>
   (init 0 :: (unit, nat) a3c) = snd (exec counting_model scenario_cfg [] (init 0)) \<and>
   call_op counting_model scenario_cfg (ActAndTrain () 0 0) (init 0)
     = (Acted 0 None, counted_first) \<and>
   made_report (Acted 0 None :: nat event) = None \<and>
   t (init 0 :: (unit, nat) a3c) - t_start (init 0 :: (unit, nat) a3c) \<noteq> t_max scenario_cfg \<and>
   model counted_first
     = snd (pi_and_v counting_model (model (init 0 :: (unit, nat) a3c)) (phi scenario_cfg ())) \<and>
   model counted_first = 0 \<and>
   t_start counted_first = t_start (init 0 :: (unit, nat) a3c) \<and>
   t counted_first = t (init 0 :: (unit, nat) a3c) + 1"
proof -
  have h: "0 \<le> t_max scenario_cfg" by (simp add: scenario_cfg_def)
  have s1: "counted_window = snd (exec counting_model scenario_cfg
      [ActAndTrain () 0 0, ActAndTrain () (- 5) 0, ActAndTrain () (1 / 2) 0] (init 0))"
    by (rule exec_counted_window [symmetric])
  have s0: "(init 0 :: (unit, nat) a3c) = snd (exec counting_model scenario_cfg [] (init 0))"
    by simp
  have m1: "made_report (Acted 0 (Some clipped_report) :: nat event) = Some clipped_report"
    and m0: "made_report (Acted 0 None :: nat event) = None"
    "(Acted 0 None :: nat event) \<noteq> Raised AssertionError"
    by (simp_all add: made_report_def)
  note c1 = horizon_update [OF h s1 call_counted_next]
  note c0 = horizon_update [OF h s0 call_counted_first]
  from c1 m1 have a: "t counted_window - t_start counted_window = t_max scenario_cfg"
    by simp
  from c1 m1 have b: "bootstrap clipped_report
     = snd (fst (pi_and_v counting_model (model counted_window) (phi scenario_cfg ())))"
    "model counted_next
     = snd (pi_and_v counting_model
              (backward_and_update counting_model (model counted_window) clipped_report)
              (phi scenario_cfg ()))"
    "t_start counted_next = t counted_window" "t counted_next = t counted_window + 1"
    "past_states counted_next = [t counted_window \<mapsto> phi scenario_cfg ()]"
    by blast+
  from c0 m0 have d:
    "t (init 0 :: (unit, nat) a3c) - t_start (init 0 :: (unit, nat) a3c) \<noteq> t_max scenario_cfg"
    by simp
  from c0 m0 have e:
    "model counted_first
     = snd (pi_and_v counting_model (model (init 0 :: (unit, nat) a3c)) (phi scenario_cfg ()))"
    "t_start counted_first = t_start (init 0 :: (unit, nat) a3c)"
    "t counted_first = t (init 0 :: (unit, nat) a3c) + 1"
    by blast+
  have v: "model counted_window = 0" "model counted_next = 1" "model counted_first = 0"
    by (simp_all add: counted_window_def counted_next_def counted_first_def)
  show ?thesis
    using h s1 s0 m1 m0(1) call_counted_next call_counted_first a b d e v by blast
qed

text \<open>
  A second episode begun with reward 5 and with reward -5: the same returns and
  reports, and agents that differ only in the reward stored at index 0, below
  \<open>t_start = 1\<close>.
\<close>

theorem first_reward_unread_witness:
  "window_closed True [ActAndTrain () 0 0, StopEpisodeAndTrain () 1 True] \<and>
   first_window = snd (exec const_model scenario_cfg [ActAndTrain () 0 0] (init ())) \<and>
   \<not> window_closed True [ActAndTrain () 0 0] \<and>
   drained = snd (exec const_model scenario_cfg
      [ActAndTrain () 0 0, StopEpisodeAndTrain () 1 True, ActAndTrain () 5 0,
       ActAndTrain () 1 0, StopEpisodeAndTrain () 1 True] (init ())) \<and>
   exec const_model scenario_cfg
     ([ActAndTrain () 0 0, StopEpisodeAndTrain () 1 True]
        @ ActAndTrain () 5 0 # [ActAndTrain () 1 0, StopEpisodeAndTrain () 1 True]) (init ())
     = (episode_events, drained) \<and>
   exec const_model scenario_cfg
     ([ActAndTrain () 0 0, StopEpisodeAndTrain () 1 True]
        @ ActAndTrain () (- 5) 0 # [ActAndTrain () 1 0, StopEpisodeAndTrain () 1 True]) (init ())
     = (episode_events, drained) \<and>
   t (snd (exec const_model scenario_cfg
        [ActAndTrain () 0 0, StopEpisodeAndTrain () 1 True] (init ())))
     = t_start (snd (exec const_model scenario_cfg
        [ActAndTrain () 0 0, StopEpisodeAndTrain () 1 True] (init ()))) \<and>
   past_rewards (store_reward scenario_cfg 5 (snd (exec const_model scenario_cfg
        [ActAndTrain () 0 0, StopEpisodeAndTrain () 1 True] (init ())))) (1 - 1) = Some 1 \<and>
   agree_in_window drained drained \<and>
   exec const_model scenario_cfg
     ([ActAndTrain () 0 0, StopEpisodeAndTrain () 1 True] @ ActAndTrain () 5 0 # []) (init ())
     = (open_events, open_window 1) \<and>
   exec const_model scenario_cfg
     ([ActAndTrain () 0 0, StopEpisodeAndTrain () 1 True] @ ActAndTrain () (- 5) 0 # []) (init ())
     = (open_events, open_window (- 1)) \<and>
   agree_in_window (open_window 1) (open_window (- 1)) \<and>
   past_rewards (open_window 1) 0 = Some 1 \<and>
   past_rewards (open_window (- 1)) 0 = Some (- 1) \<and>
   t_start (open_window 1) = 1"
proof -
  let ?pre = "[ActAndTrain () 0 0, StopEpisodeAndTrain () 1 True] :: unit call list"
  let ?s = "snd (exec const_model scenario_cfg ?pre (init ())) :: (unit, unit) a3c"
  have h: "window_closed True ?pre" by simp
  have n: "\<not> window_closed True ([ActAndTrain () 0 0] :: unit call list)" by simp
  have f: "first_window = snd (exec const_model scenario_cfg [ActAndTrain () 0 0] (init ()))"
    using call_first_window by (simp add: exec_Cons del: exec.simps(2))
  have s: "?s = ?s" by simp
  note c = first_reward_unread [OF h s exec_episode [of 5] exec_episode [of "- 5"]]
  from c have a: "t ?s = t_start ?s" by blast
  have ts: "t_start ?s = 1" by (simp add: concrete_defs upto_0_0)
  have cl: "(if clip_reward scenario_cfg then np_clip 5 (- 1) 1 else 5) = 1"
    by (simp add: scenario_cfg_def np_clip_def)
  from c have "past_rewards (store_reward scenario_cfg 5 ?s) (t_start ?s - 1)
      = Some (if clip_reward scenario_cfg then np_clip 5 (- 1) 1 else 5)" by blast
  with ts cl have b: "past_rewards (store_reward scenario_cfg 5 ?s) (1 - 1) = Some 1" by simp
  from c have d: "agree_in_window drained drained" by blast
  have e: "drained = snd (exec const_model scenario_cfg
      [ActAndTrain () 0 0, StopEpisodeAndTrain () 1 True, ActAndTrain () 5 0,
       ActAndTrain () 1 0, StopEpisodeAndTrain () 1 True] (init ()))"
    using exec_episode [of 5] by simp
  have o1: "exec const_model scenario_cfg
     ([ActAndTrain () 0 0, StopEpisodeAndTrain () 1 True] @ ActAndTrain () 5 0 # []) (init ())
     = (open_events, open_window 1)"
    using exec_open [of 5] by (simp add: np_clip_def)
  have o2: "exec const_model scenario_cfg
     ([ActAndTrain () 0 0, StopEpisodeAndTrain () 1 True] @ ActAndTrain () (- 5) 0 # []) (init ())
     = (open_events, open_window (- 1))"
    using exec_open [of "- 5"] by (simp add: np_clip_def)
  from first_reward_unread [OF h s o1 o2] have g: "agree_in_window (open_window 1) (open_window (- 1))"
    by blast
  have v: "past_rewards (open_window 1) 0 = Some 1" "past_rewards (open_window (- 1)) 0 = Some (- 1)"
    "t_start (open_window 1) = 1"
    by (simp_all add: open_window_def)
  show ?thesis using h n f e exec_episode [of 5] exec_episode [of "- 5"] a b d o1 o2 g v by blast
qed

end
